theory Spec2Isabelle
  imports Complex_Main
begin

section \<open>Corsi block-tapping task: data model\<close>

text \<open>
  A shallow embedding of \<^verbatim>\<open>Final_Corsi_OOP.py\<close>. Python integers are \<open>int\<close>;
  counters that start at 0 and are only ever incremented or reset to 0 (\<^verbatim>\<open>clicks\<close>,
  \<^verbatim>\<open>errors\<close>, \<^verbatim>\<open>highlight_box_id\<close>, the loop counter of the box generator) and the
  configured number of boxes are \<open>nat\<close>. Python floats (times, the minimum distance,
  the statistics) are idealised as \<open>real\<close>. Exceptions are values of type \<open>error\<close>.
\<close>

datatype error = AttributeError | IndexError | TypeError | ValueError
  | ZeroDivisionError | SystemExit

datatype app_state = Participant_ID | Instructions | ShowSequence | UserInput | Feedback

datatype key = K_ESCAPE | K_RETURN | K_SPACE | K_other nat

datatype event = QUIT | KEYDOWN key | MOUSEBUTTONUP | Other_event

text \<open>A Python string: the list of its code points.\<close>

type_synonym py_str = "nat list"

text \<open>
  What the conversion of a string to an integer takes from the interpreter that runs
  the program: the decimal value that its Unicode database gives to a non-ASCII
  code point, if it is a decimal digit, and the limit on the number of digits of a
  string that is converted (4300 from Python 3.11 on, 0 where there is none; the
  interpreter takes no other setting below 640).
\<close>

record python =
  unicode_decimal :: "nat \<Rightarrow> nat option"
  int_max_str_digits :: nat

text \<open>
  \<^verbatim>\<open>BOX_PARAMS\<close>: the dictionary of box parameters, with its five fixed keys. The
  margin is the float \<^verbatim>\<open>1.5 * BOX_SIZE\<close>; the code uses it as a bound of
  \<^verbatim>\<open>random.randint\<close>, that is as an integer.
\<close>

record box_parameters =
  n_boxes :: nat
  size_p :: int
  min_dist :: real
  t_highlight :: real
  margin :: int

text \<open>
  \<^verbatim>\<open>Sequence.Box\<close>. The drawing surface \<^verbatim>\<open>rend\<close> is left out; \<^verbatim>\<open>rect\<close> is
  \<^verbatim>\<open>None\<close> until the box is drawn and then the rectangle (left, top, width, height).
\<close>

record box =
  pos :: "int \<times> int"
  size_b :: int
  highlight :: bool
  clicked :: bool
  correct :: bool
  rect :: "(int \<times> int \<times> int \<times> int) option"

record sequence =
  screen_size :: "int \<times> int"
  box_params :: box_parameters
  length_s :: "int option"
  highlight_box_id :: nat
  last_box_highlighted :: real
  boxes :: "box list"
  correct_s :: bool

record participant =
  participant_id :: int
  current_trial :: int
  corsi_spans :: "int list"
  corsi_span :: int
  clicks :: nat
  errors :: nat
  mean_corsi_span :: real
  std_corsi_span :: real

record application =
  text_input :: py_str
  state :: app_state
  participant :: "participant option"
  sequence :: sequence
  max_trials :: int
  trial_over :: bool
  max_participants :: int
  start_delay :: real
  trial_start :: real

text \<open>Sequencing of computations that may raise.\<close>

definition ebind :: "error + 'a \<Rightarrow> ('a \<Rightarrow> error + 'b) \<Rightarrow> error + 'b" where
  "ebind m f = (case m of Inl e \<Rightarrow> Inl e | Inr x \<Rightarrow> f x)"

section \<open>Participant\<close>

text \<open>\<^verbatim>\<open>Participant.__init__\<close>.\<close>

definition Participant :: "int \<Rightarrow> participant" where
  "Participant pid = \<lparr> participant_id = pid, current_trial = 1, corsi_spans = [],
     corsi_span = 2, clicks = 0, errors = 0, mean_corsi_span = 0, std_corsi_span = 0 \<rparr>"

text \<open>
  Python's \<^verbatim>\<open>round(x, n)\<close> on the exact value of \<open>x\<close>: to the nearest multiple of
  \<open>10\<^sup>-\<^sup>n\<close>, a tie going to the even one.
\<close>

definition round_half_even :: "real \<Rightarrow> int" where
  "round_half_even x =
     (let f = \<lfloor>x\<rfloor>; d = x - of_int f in
      if d < 1 / 2 then f else if 1 / 2 < d then f + 1
      else if even f then f else f + 1)"

definition py_round :: "real \<Rightarrow> nat \<Rightarrow> real" where
  "py_round x n = of_int (round_half_even (x * 10 ^ n)) / 10 ^ n"

text \<open>
  \<^verbatim>\<open>Participant.update_statistics\<close>: the span is appended only while the history is
  shorter than the trial index; the division raises on an empty history.
\<close>

definition update_statistics :: "participant \<Rightarrow> error + participant" where
  "update_statistics p =
     (let spans = (if int (length (corsi_spans p)) < current_trial p
                   then corsi_spans p @ [corsi_span p] else corsi_spans p)
      in if length spans = 0 then Inl ZeroDivisionError
         else
           let m = py_round (real_of_int (sum_list spans) / real (length spans)) 2;
               sd = py_round (sqrt (sum_list (map (\<lambda>xi. (real_of_int xi - m) ^ 2) spans)
                                     / real (length spans))) 2
           in Inr (p\<lparr> corsi_spans := spans, mean_corsi_span := m, std_corsi_span := sd \<rparr>))"

section \<open>Sequence: box layout\<close>

text \<open>\<^verbatim>\<open>Box.__init__\<close>.\<close>

definition Box :: "int \<times> int \<Rightarrow> int \<Rightarrow> box" where
  "Box p sz = \<lparr> pos = p, size_b = sz, highlight = False, clicked = False,
     correct = False, rect = None \<rparr>"

text \<open>
  \<^verbatim>\<open>Box.draw\<close>: the rectangle of a surface of the box's size, centred at its position
  (pygame places the left and top edge at the centre minus half the side, rounded down).
\<close>

definition draw :: "box \<Rightarrow> box" where
  "draw b = b\<lparr> rect := Some (fst (pos b) - size_b b div 2, snd (pos b) - size_b b div 2,
                              size_b b, size_b b) \<rparr>"

text \<open>
  \<^verbatim>\<open>random.randint(a, b)\<close> on one raw draw \<open>r\<close> of the generator: a value of
  \<open>[a, b]\<close>, and a \<^verbatim>\<open>ValueError\<close> on an empty range.
\<close>

definition randint :: "int \<Rightarrow> int \<Rightarrow> nat \<Rightarrow> error + int" where
  "randint a b r = (if b < a then Inl ValueError else Inr (a + int (r mod nat (b - a + 1))))"

text \<open>\<^verbatim>\<open>Sequence.collision_check\<close>.\<close>

definition collision_check :: "box_parameters \<Rightarrow> box \<Rightarrow> box \<Rightarrow> bool" where
  "collision_check bp candidate_box b =
     (let dx = fst (pos candidate_box) - fst (pos b);
          dy = snd (pos candidate_box) - snd (pos b);
          distance = sqrt (real_of_int (dx ^ 2 + dy ^ 2))
      in if distance < min_dist bp then True else False)"

text \<open>
  The \<^verbatim>\<open>while\<close> loop of \<^verbatim>\<open>Sequence.generate_boxes\<close>. The random generator is the
  sequence \<open>rng\<close> of its raw draws, \<open>d\<close> counts the draws consumed, \<open>i\<close> is the loop
  counter and \<open>bs\<close> the boxes accepted so far. The loop has no bound on retries, so
  the result is \<open>None\<close> when it never ends.
\<close>

partial_function (option) generate_loop ::
  "int \<times> int \<Rightarrow> box_parameters \<Rightarrow> (nat \<Rightarrow> nat) \<Rightarrow> nat \<Rightarrow> nat \<Rightarrow> box list
     \<Rightarrow> (error + box list) option" where
  "generate_loop scr bp rng d i bs =
     (if i < n_boxes bp then
        (case randint (margin bp) (fst scr - margin bp) (rng d) of
           Inl e \<Rightarrow> Some (Inl e)
         | Inr random_x \<Rightarrow>
            (case randint (margin bp) (snd scr - margin bp) (rng (d + 1)) of
               Inl e \<Rightarrow> Some (Inl e)
             | Inr random_y \<Rightarrow>
                (let candidate_box = Box (random_x, random_y) (size_p bp) in
                 if \<not> list_ex (collision_check bp candidate_box) bs
                 then generate_loop scr bp rng (d + 2) (i + 1) (bs @ [candidate_box])
                 else generate_loop scr bp rng (d + 2) i bs)))
      else Some (Inr bs))"

definition generate_boxes :: "sequence \<Rightarrow> (nat \<Rightarrow> nat) \<Rightarrow> (error + box list) option" where
  "generate_boxes s rng = generate_loop (screen_size s) (box_params s) rng 0 0 []"

text \<open>\<^verbatim>\<open>Sequence.generate\<close>: the correctness flag of the sequence is not touched.\<close>

definition generate :: "sequence \<Rightarrow> int \<Rightarrow> (nat \<Rightarrow> nat) \<Rightarrow> (error + sequence) option" where
  "generate s len rng =
     map_option (\<lambda>r. ebind r (\<lambda>bs.
         Inr (s\<lparr> length_s := Some len, boxes := bs, highlight_box_id := 0 \<rparr>)))
       (generate_boxes (s\<lparr> length_s := Some len \<rparr>) rng)"

section \<open>Sequence: presentation\<close>

text \<open>Assigning the \<^verbatim>\<open>highlight\<close> flag of \<^verbatim>\<open>boxes[k]\<close>; an index out of range raises.\<close>

definition set_highlight :: "nat \<Rightarrow> bool \<Rightarrow> box list \<Rightarrow> error + box list" where
  "set_highlight k v bs =
     (if k < length bs then Inr (bs[k := (bs ! k)\<lparr> highlight := v \<rparr>]) else Inl IndexError)"

text \<open>
  \<^verbatim>\<open>Sequence.show\<close>. \<open>time k\<close> is the value of the \<open>k\<close>-th reading of the clock
  during the call (the delay test reads it first; each branch reads it again for its
  own use). The result is the next state and the sequence with every box drawn.
\<close>

definition show_seq ::
  "real \<Rightarrow> real \<Rightarrow> (nat \<Rightarrow> real) \<Rightarrow> sequence \<Rightarrow> error + (app_state \<times> sequence)" where
  "show_seq trial_start_t start_delay_t time s =
     ebind
       (if start_delay_t < time 0 - trial_start_t then
          (if highlight_box_id s = 0 then
             ebind (set_highlight (highlight_box_id s) True (boxes s)) (\<lambda>bs.
               Inr (ShowSequence,
                    s\<lparr> boxes := bs, highlight_box_id := highlight_box_id s + 1,
                       last_box_highlighted := time 1 \<rparr>))
           else
             (let current_time = time 1 in
              if t_highlight (box_params s) < current_time - last_box_highlighted s then
                (case length_s s of
                   None \<Rightarrow> Inl TypeError
                 | Some len \<Rightarrow>
                    if int (highlight_box_id s) < len then
                      ebind (set_highlight (highlight_box_id s - 1) False (boxes s)) (\<lambda>bs.
                      ebind (set_highlight (highlight_box_id s) True bs) (\<lambda>bs'.
                        Inr (ShowSequence,
                             s\<lparr> boxes := bs', highlight_box_id := highlight_box_id s + 1,
                                last_box_highlighted := time 2 \<rparr>)))
                    else
                      ebind (set_highlight (highlight_box_id s - 1) False (boxes s)) (\<lambda>bs.
                        Inr (UserInput, s\<lparr> boxes := bs \<rparr>)))
              else Inr (ShowSequence, s)))
        else Inr (ShowSequence, s))
       (\<lambda>(next_state, s'). Inr (next_state, s'\<lparr> boxes := map draw (boxes s') \<rparr>))"

section \<open>Application\<close>

text \<open>
  Python's \<^verbatim>\<open>int(text)\<close> on a string, as CPython computes it. First every code
  point beyond ASCII is replaced: a Unicode whitespace character by a space, a decimal
  digit of any script by the ASCII digit of its value, anything else by a question
  mark (CPython drops what follows the first question mark; the string is refused
  either way). Then the ASCII string is read: whitespace at both ends is dropped
  (tab, line feed, vertical tab, form feed, carriage return, space), one sign is
  allowed, and the rest is decimal digits, where single underscores may stand between
  digits; a string with more digits than the limit is refused. Anything else raises
  \<^verbatim>\<open>ValueError\<close> (\<open>None\<close> here).
\<close>

definition int_space :: "nat \<Rightarrow> bool" where
  "int_space c = (c \<in> set [9, 10, 11, 12, 13, 32])"

definition unicode_space :: "nat \<Rightarrow> bool" where
  "unicode_space c =
     (c = 0x85 \<or> c = 0xA0 \<or> c = 0x1680 \<or> (0x2000 \<le> c \<and> c \<le> 0x200A) \<or>
      c = 0x2028 \<or> c = 0x2029 \<or> c = 0x202F \<or> c = 0x205F \<or> c = 0x3000)"

definition to_ascii :: "python \<Rightarrow> nat \<Rightarrow> nat" where
  "to_ascii py c =
     (if c < 128 then c
      else if unicode_space c then 32
      else case unicode_decimal py c of
             None \<Rightarrow> 63
           | Some d \<Rightarrow> if d < 10 then 48 + d else 63)"

definition is_digit :: "nat \<Rightarrow> bool" where
  "is_digit c = (48 \<le> c \<and> c \<le> 57)"

definition digit_val :: "nat \<Rightarrow> int" where
  "digit_val c = int c - 48"

fun parse_digits :: "int \<Rightarrow> nat list \<Rightarrow> int option" where
  "parse_digits acc [] = Some acc"
| "parse_digits acc [c] = (if is_digit c then Some (10 * acc + digit_val c) else None)"
| "parse_digits acc (c # c' # cs) =
     (if is_digit c then
        (if c' = 95 then
           (case cs of [] \<Rightarrow> None
            | c'' # _ \<Rightarrow> if is_digit c'' then parse_digits (10 * acc + digit_val c) cs else None)
         else parse_digits (10 * acc + digit_val c) (c' # cs))
      else None)"

definition strip :: "nat list \<Rightarrow> nat list" where
  "strip t = rev (dropWhile int_space (rev (dropWhile int_space t)))"

definition parse_stripped :: "python \<Rightarrow> nat list \<Rightarrow> int option" where
  "parse_stripped py t =
     (case t of
        [] \<Rightarrow> None
      | c # cs \<Rightarrow>
          (let ds = (if c = 45 \<or> c = 43 then cs else t) in
           if ds = [] then None
           else if 0 < int_max_str_digits py \<and>
                   int_max_str_digits py < length (filter is_digit ds) then None
           else if c = 45 then map_option uminus (parse_digits 0 ds)
           else parse_digits 0 ds))"

definition py_int :: "python \<Rightarrow> py_str \<Rightarrow> int option" where
  "py_int py text = parse_stripped py (strip (map (to_ascii py) text))"

text \<open>
  \<^verbatim>\<open>Application.__init__\<close>, for the fields the state machine uses. The text field of
  the identifier widget is the string \<open>text_input\<close>.
\<close>

definition Sequence :: "int \<times> int \<Rightarrow> box_parameters \<Rightarrow> sequence" where
  "Sequence scr bp = \<lparr> screen_size = scr, box_params = bp, length_s = None,
     highlight_box_id = 0, last_box_highlighted = 0, boxes = [], correct_s = False \<rparr>"

definition Application ::
  "int \<times> int \<Rightarrow> box_parameters \<Rightarrow> real \<Rightarrow> int \<Rightarrow> int \<Rightarrow> application" where
  "Application scr bp delay maxp maxt = \<lparr> text_input = [], state = Participant_ID,
     participant = None, sequence = Sequence scr bp, max_trials = maxt,
     trial_over = False, max_participants = maxp,
     start_delay = real_of_int (if 0 \<le> delay then \<lfloor>delay\<rfloor> else \<lceil>delay\<rceil>),
     trial_start = 0 \<rparr>"

text \<open>
  \<^verbatim>\<open>Application.handle_id_input\<close>. The text widget belongs to an external library:
  \<open>upd\<close> is what its \<^verbatim>\<open>update\<close> does to the text on an event, and \<open>py\<close> is the
  interpreter. The second component of the result is the printed message, if any.
\<close>

definition handle_id_input ::
  "python \<Rightarrow> (py_str \<Rightarrow> event \<Rightarrow> py_str) \<Rightarrow> event \<Rightarrow> application
     \<Rightarrow> application \<times> string option" where
  "handle_id_input py upd ev app =
     (let app1 = app\<lparr> text_input := upd (text_input app) ev \<rparr> in
      if ev = KEYDOWN K_RETURN then
        (let participant_id = py_int py (text_input app1) in
         case participant_id of
           Some n \<Rightarrow>
             if 1 \<le> n \<and> n \<le> max_participants app1
             then (app1\<lparr> participant := Some (Participant n), state := Instructions \<rparr>, None)
             else (app1, Some ''Incorrect participant ID. Please type a number between 1 and '')
         | None \<Rightarrow>
             (app1, Some ''Incorrect participant ID. Please type a number between 1 and ''))
      else (app1, None))"

text \<open>
  \<^verbatim>\<open>Application.generate_sequence\<close>. \<open>None\<close> when the box generator never returns.
\<close>

definition generate_sequence ::
  "(nat \<Rightarrow> nat) \<Rightarrow> application \<Rightarrow> (error + application) option" where
  "generate_sequence rng app =
     (case participant app of
        None \<Rightarrow> Some (Inl AttributeError)
      | Some p \<Rightarrow>
          (let sequence_length = corsi_span p + 1 in
           map_option (\<lambda>r. ebind r (\<lambda>s.
               Inr (app\<lparr> sequence := s, state := ShowSequence,
                         participant := Some (p\<lparr> clicks := 0 \<rparr>) \<rparr>)))
             (generate (sequence app) sequence_length rng)))"

text \<open>\<^verbatim>\<open>Application.handle_instructions_input\<close>; \<open>now\<close> is the clock reading.\<close>

definition handle_instructions_input ::
  "(nat \<Rightarrow> nat) \<Rightarrow> real \<Rightarrow> event \<Rightarrow> application \<Rightarrow> (error + application) option" where
  "handle_instructions_input rng now ev app =
     (if ev = KEYDOWN K_SPACE then
        (case participant app of
           None \<Rightarrow> Some (Inl AttributeError)
         | Some p \<Rightarrow> generate_sequence rng (app\<lparr> trial_start := now \<rparr>))
      else Some (Inr app))"

text \<open>pygame's \<^verbatim>\<open>Rect.collidepoint\<close>: the right and bottom edges are outside.\<close>

definition collidepoint :: "int \<times> int \<times> int \<times> int \<Rightarrow> int \<times> int \<Rightarrow> bool" where
  "collidepoint r p =
     (case r of (l, t, w, h) \<Rightarrow>
        l \<le> fst p \<and> fst p < l + w \<and> t \<le> snd p \<and> snd p < t + h)"

text \<open>
  The body of the loop over the boxes in \<^verbatim>\<open>Application.handle_user_input\<close>, for the
  box at index \<open>k\<close>. Boxes are compared by identity, that is by their index in the list.
\<close>

definition click_box :: "int \<times> int \<Rightarrow> nat \<Rightarrow> application \<Rightarrow> error + application" where
  "click_box mouse k app =
     (let bs = boxes (sequence app); b = bs ! k in
      case rect b of
        None \<Rightarrow> Inl AttributeError
      | Some r \<Rightarrow>
          if collidepoint r mouse \<and> \<not> clicked b then
            (let bs1 = map (\<lambda>b'. b'\<lparr> clicked := False \<rparr>) bs;
                 bs2 = bs1[k := (bs1 ! k)\<lparr> clicked := True \<rparr>]
             in case participant app of
                  None \<Rightarrow> Inl AttributeError
                | Some p \<Rightarrow>
                    if length bs \<le> clicks p then Inl IndexError
                    else if k = clicks p then
                      (let bs3 = bs2[k := (bs2 ! k)\<lparr> correct := True \<rparr>] in
                       case length_s (sequence app) of
                         None \<Rightarrow> Inl TypeError
                       | Some len \<Rightarrow>
                           if int (clicks p) = len - 1
                           then Inr (app\<lparr> sequence := (sequence app)\<lparr> boxes := bs3, correct_s := True \<rparr>,
                                          state := Feedback \<rparr>)
                           else Inr (app\<lparr> sequence := (sequence app)\<lparr> boxes := bs3 \<rparr>,
                                          participant := Some (p\<lparr> clicks := clicks p + 1 \<rparr>) \<rparr>))
                    else
                      (let bs3 = bs2[k := (bs2 ! k)\<lparr> correct := False \<rparr>] in
                       Inr (app\<lparr> sequence := (sequence app)\<lparr> boxes := bs3, correct_s := False \<rparr>,
                                 state := Feedback,
                                 participant := Some (p\<lparr> errors := errors p + 1 \<rparr>) \<rparr>)))
          else Inr app)"

text \<open>The loop itself runs over every index of the list, and goes on after a hit.\<close>

fun click_loop :: "int \<times> int \<Rightarrow> nat list \<Rightarrow> application \<Rightarrow> error + application" where
  "click_loop mouse [] app = Inr app"
| "click_loop mouse (k # ks) app = ebind (click_box mouse k app) (click_loop mouse ks)"

text \<open>
  \<^verbatim>\<open>Application.handle_user_input\<close>; \<open>mouse\<close> is what \<^verbatim>\<open>pygame.mouse.get_pos()\<close>
  returns.
\<close>

definition handle_user_input ::
  "int \<times> int \<Rightarrow> event \<Rightarrow> application \<Rightarrow> error + application" where
  "handle_user_input mouse ev app =
     (if ev = MOUSEBUTTONUP
      then click_loop mouse [0 ..< length (boxes (sequence app))] app
      else Inr app)"

text \<open>\<^verbatim>\<open>Application.handle_feedback_input\<close>.\<close>

definition handle_feedback_input ::
  "(nat \<Rightarrow> nat) \<Rightarrow> event \<Rightarrow> application \<Rightarrow> (error + application) option" where
  "handle_feedback_input rng ev app =
     (if ev = KEYDOWN K_SPACE then
        (case (if trial_over app then
                 (case participant app of
                    None \<Rightarrow> Inl AttributeError
                  | Some p \<Rightarrow>
                      if current_trial p < max_trials app
                      then Inr (app\<lparr> participant := Some (p\<lparr> current_trial := current_trial p + 1,
                                                                corsi_span := 2, errors := 0 \<rparr>),
                                     trial_over := False \<rparr>)
                      else Inr app)
               else Inr app) of
           Inl e \<Rightarrow> Some (Inl e)
         | Inr app1 \<Rightarrow>
             if trial_over app1 then
               (case participant app1 of
                  None \<Rightarrow> Some (Inl AttributeError)
                | Some p \<Rightarrow>
                    if current_trial p = max_trials app1 then Some (Inr app1)
                    else generate_sequence rng app1)
             else generate_sequence rng app1)
      else Some (Inr app))"

text \<open>
  \<^verbatim>\<open>Application.show_feedback\<close>. Of the texts it draws, the result keeps the message
  and the line that tells the participant how to go on. A sequence that is marked
  correct has a length (the mark is set only where the length is read); for a
  sequence without one the span would become \<^verbatim>\<open>None\<close>, which no integer holds, and
  the result is the \<^verbatim>\<open>TypeError\<close> that the next use of the span raises.
\<close>

definition show_feedback :: "application \<Rightarrow> error + ((string \<times> string) \<times> application)" where
  "show_feedback app =
     (case participant app of
        None \<Rightarrow> Inl AttributeError
      | Some p \<Rightarrow>
          ebind
            (if correct_s (sequence app) then
               (case length_s (sequence app) of
                  None \<Rightarrow> Inl TypeError
                | Some len \<Rightarrow>
                    (let p1 = p\<lparr> errors := 0, corsi_span := len \<rparr> in
                     if len = int (n_boxes (box_params (sequence app)))
                     then Inr (''Congratulations! You won!'', p1, True)
                     else Inr (''Great job!'', p1, trial_over app)))
             else if errors p = 1 then Inr (''One more try!'', p, trial_over app)
             else Inr (''Trial finished!'', p, True))
            (\<lambda>(message, p1, over).
               ebind (if over then update_statistics p1 else Inr p1) (\<lambda>p2.
                 (let feedback =
                        (if over \<and> current_trial p2 < max_trials app
                         then ''Press space bar for next trial!''
                         else if over \<and> current_trial p2 = max_trials app
                         then ''Press ESC to close application!''
                         else ''Press space bar to continue'')
                  in Inr ((message, feedback),
                          app\<lparr> participant := Some p2, trial_over := over \<rparr>)))))"

text \<open>
  \<^verbatim>\<open>Application.update\<close>, one render tick: \<open>time\<close> gives the clock readings of the
  tick. The drawing of the identifier field and of the instructions changes nothing.
\<close>

definition update_app :: "(nat \<Rightarrow> real) \<Rightarrow> application \<Rightarrow> error + application" where
  "update_app time app =
     (case state app of
        Participant_ID \<Rightarrow> Inr app
      | Instructions \<Rightarrow> Inr app
      | Feedback \<Rightarrow> ebind (show_feedback app) (\<lambda>(msg, app'). Inr app')
      | _ \<Rightarrow> ebind (show_seq (trial_start app) (start_delay app) time (sequence app))
                (\<lambda>(new_state, s). Inr (app\<lparr> sequence := s, state := new_state \<rparr>)))"

text \<open>
  The dispatch of one event in \<^verbatim>\<open>Application.handle_events\<close>. Quitting (after the
  result row is handed to the CSV writer) ends the process: \<^verbatim>\<open>SystemExit\<close>.
\<close>

definition handle_event ::
  "python \<Rightarrow> (py_str \<Rightarrow> event \<Rightarrow> py_str) \<Rightarrow> (nat \<Rightarrow> nat) \<Rightarrow> real \<Rightarrow> int \<times> int \<Rightarrow> event
     \<Rightarrow> application \<Rightarrow> (error + application) option" where
  "handle_event py upd rng now mouse ev app =
     (if ev = QUIT \<or> ev = KEYDOWN K_ESCAPE then Some (Inl SystemExit)
      else case state app of
        Participant_ID \<Rightarrow> Some (Inr (fst (handle_id_input py upd ev app)))
      | Instructions \<Rightarrow> handle_instructions_input rng now ev app
      | UserInput \<Rightarrow> Some (handle_user_input mouse ev app)
      | Feedback \<Rightarrow> handle_feedback_input rng ev app
      | ShowSequence \<Rightarrow> Some (Inr app))"

section \<open>Notions used in the statements\<close>

text \<open>The Euclidean distance between the centres of two boxes.\<close>

definition centre_dist :: "box \<Rightarrow> box \<Rightarrow> real" where
  "centre_dist a b =
     sqrt (real_of_int ((fst (pos a) - fst (pos b))\<^sup>2 + (snd (pos a) - snd (pos b))\<^sup>2))"

text \<open>A box whose centre keeps the margin to every border of the screen.\<close>

definition in_bounds :: "int \<times> int \<Rightarrow> box_parameters \<Rightarrow> box \<Rightarrow> bool" where
  "in_bounds scr bp b =
     (margin bp \<le> fst (pos b) \<and> fst (pos b) \<le> fst scr - margin bp \<and>
      margin bp \<le> snd (pos b) \<and> snd (pos b) \<le> snd scr - margin bp)"

definition layout_ok :: "int \<times> int \<Rightarrow> box_parameters \<Rightarrow> box list \<Rightarrow> bool" where
  "layout_ok scr bp bs =
     ((\<forall>b \<in> set bs. in_bounds scr bp b) \<and>
      (\<forall>i < length bs. \<forall>j < length bs. i \<noteq> j \<longrightarrow> min_dist bp \<le> centre_dist (bs ! i) (bs ! j)))"

text \<open>
  A small configuration for concrete runs: four boxes on the 800 by 600 screen with
  the margin, side and minimum distance of the program's own parameters, and a
  generator whose second candidate collides with the first.
\<close>

definition demo_params :: box_parameters where
  "demo_params = \<lparr> n_boxes = 4, size_p = 50, min_dist = 100, t_highlight = 1, margin = 75 \<rparr>"

definition demo_rng :: "nat \<Rightarrow> nat" where
  "demo_rng d = (if d < 4 then 5 * d else 150 * d)"

text \<open>
  A configuration that leaves room for one box only: the margin allows the single
  position (75, 75), and two boxes are asked for.
\<close>

definition tight_params :: box_parameters where
  "tight_params = \<lparr> n_boxes = 2, size_p = 50, min_dist = 100, t_highlight = 1, margin = 75 \<rparr>"

text \<open>
  An ASCII string as a Python string; an interpreter that knows the Arabic-Indic
  digits and has the digit limit of Python 3.11; a text widget that appends the
  character of a key and leaves the text as it is on every other event; a clock
  that shows \<open>t\<close> at every reading of a tick.
\<close>

definition ascii :: "string \<Rightarrow> py_str" where
  "ascii s = map of_char s"

definition demo_python :: python where
  "demo_python =
     \<lparr> unicode_decimal = (\<lambda>c. if 0x660 \<le> c \<and> c \<le> 0x669 then Some (c - 0x660) else None),
       int_max_str_digits = 4300 \<rparr>"

definition demo_widget :: "py_str \<Rightarrow> event \<Rightarrow> py_str" where
  "demo_widget t ev = (case ev of KEYDOWN (K_other c) \<Rightarrow> t @ [c] | _ \<Rightarrow> t)"

definition clock_at :: "real \<Rightarrow> nat \<Rightarrow> real" where
  "clock_at t k = t"

text \<open>
  A state of input collection on that configuration: the identifier 5 typed, the
  four boxes of the layout drawn, a sequence of length 3 shown to its end,
  participant 5 in the first trial.
\<close>

definition demo_boxes :: "box list" where
  "demo_boxes = map draw [Box (75, 80) 50, Box (675, 374) 50, Box (324, 223) 50, Box (624, 523) 50]"

definition demo_input :: application where
  "demo_input = (Application (800, 600) demo_params 1 20 3)
     \<lparr> text_input := [53], state := UserInput, participant := Some (Participant 5),
       sequence := (Sequence (800, 600) demo_params)
          \<lparr> length_s := Some 3, highlight_box_id := 3, last_box_highlighted := 5,
            boxes := demo_boxes \<rparr>,
       trial_start := 1 \<rparr>"

text \<open>An identifier that \<^verbatim>\<open>int\<close> parses to a number of \<open>[1, maxp]\<close>.\<close>

definition valid_id :: "python \<Rightarrow> int \<Rightarrow> py_str \<Rightarrow> bool" where
  "valid_id py maxp txt =
     (case py_int py txt of None \<Rightarrow> False | Some n \<Rightarrow> 1 \<le> n \<and> n \<le> maxp)"

text \<open>The number that a list of decimal digits, the first one leading, writes.\<close>

definition decimal_value :: "nat list \<Rightarrow> int" where
  "decimal_value ds = foldl (\<lambda>a d. 10 * a + int d) 0 ds"

text \<open>At most one box of the list carries the \<^verbatim>\<open>clicked\<close> flag.\<close>

definition at_most_one_clicked :: "box list \<Rightarrow> bool" where
  "at_most_one_clicked bs =
     (\<forall>i < length bs. \<forall>j < length bs. clicked (bs ! i) \<longrightarrow> clicked (bs ! j) \<longrightarrow> i = j)"

text \<open>The mouse position lies in the rectangle of a drawn box.\<close>

definition hit :: "int \<times> int \<Rightarrow> box \<Rightarrow> bool" where
  "hit mouse b = (case rect b of None \<Rightarrow> False | Some r \<Rightarrow> collidepoint r mouse)"

text \<open>Render ticks, one after the other, each with its own clock readings.\<close>

fun ticks :: "(nat \<Rightarrow> real) list \<Rightarrow> application \<Rightarrow> error + application" where
  "ticks [] app = Inr app"
| "ticks (time # ts) app = ebind (update_app time app) (ticks ts)"

text \<open>
  The states that follow \<open>demo_input\<close> when the first box is clicked, then the second,
  then the first once more.
\<close>

definition demo_input1 :: application where
  "demo_input1 = demo_input
     \<lparr> sequence := (sequence demo_input)
          \<lparr> boxes := demo_boxes[0 := (demo_boxes ! 0)\<lparr> clicked := True, correct := True \<rparr>] \<rparr>,
       participant := Some ((Participant 5)\<lparr> clicks := 1 \<rparr>) \<rparr>"

definition demo_input2 :: application where
  "demo_input2 = demo_input
     \<lparr> sequence := (sequence demo_input)
          \<lparr> boxes := demo_boxes[0 := (demo_boxes ! 0)\<lparr> correct := True \<rparr>,
                                 1 := (demo_boxes ! 1)\<lparr> clicked := True, correct := True \<rparr>] \<rparr>,
       participant := Some ((Participant 5)\<lparr> clicks := 2 \<rparr>) \<rparr>"

definition demo_input3 :: application where
  "demo_input3 = demo_input
     \<lparr> state := Feedback,
       sequence := (sequence demo_input)
          \<lparr> boxes := demo_boxes[0 := (demo_boxes ! 0)\<lparr> clicked := True \<rparr>,
                                 1 := (demo_boxes ! 1)\<lparr> correct := True \<rparr>] \<rparr>,
       participant := Some ((Participant 5)\<lparr> clicks := 2, errors := 1 \<rparr>) \<rparr>"

text \<open>
  A state of feedback on that configuration: the sequence of all four boxes was
  reproduced correctly.
\<close>

definition demo_won :: application where
  "demo_won = demo_input
     \<lparr> state := Feedback,
       sequence := (sequence demo_input)\<lparr> length_s := Some 4, correct_s := True \<rparr>,
       participant := Some ((Participant 5)\<lparr> corsi_span := 3, clicks := 3 \<rparr>) \<rparr>"

text \<open>
  A call of \<^verbatim>\<open>show\<close> whose clock readings have not crossed the next threshold: the
  start delay has not passed, or a box is lit and its dwell time has not passed.
\<close>

definition within_threshold :: "real \<Rightarrow> real \<Rightarrow> (nat \<Rightarrow> real) \<Rightarrow> sequence \<Rightarrow> bool" where
  "within_threshold trial_start_t start_delay_t time s =
     (\<not> start_delay_t < time 0 - trial_start_t \<or>
      (highlight_box_id s \<noteq> 0 \<and>
       \<not> t_highlight (box_params s) < time 1 - last_box_highlighted s))"

text \<open>Repeated calls of \<^verbatim>\<open>show\<close>, each with its own clock readings.\<close>

fun show_repeat ::
  "real \<Rightarrow> real \<Rightarrow> (nat \<Rightarrow> real) list \<Rightarrow> app_state \<times> sequence
     \<Rightarrow> error + (app_state \<times> sequence)" where
  "show_repeat tr sd [] r = Inr r"
| "show_repeat tr sd (time # ts) r = ebind (show_seq tr sd time (snd r)) (show_repeat tr sd ts)"

text \<open>A sequence in presentation, its first box lit at time 5.\<close>

definition demo_showing :: sequence where
  "demo_showing = (sequence demo_input)
     \<lparr> highlight_box_id := 1,
       boxes := demo_boxes[0 := (demo_boxes ! 0)\<lparr> highlight := True \<rparr>] \<rparr>"

text \<open>
  What a handled click leaves as it is: the trial flag, the configuration, the
  length of the sequence, and of the participant everything but the click counter
  and the error counter, which does not go down.
\<close>

definition click_frame :: "application \<Rightarrow> application \<Rightarrow> bool" where
  "click_frame app app' =
     (trial_over app' = trial_over app \<and> max_trials app' = max_trials app \<and>
      length_s (sequence app') = length_s (sequence app) \<and>
      box_params (sequence app') = box_params (sequence app) \<and>
      (case participant app of
         None \<Rightarrow> participant app' = None
       | Some p \<Rightarrow> (\<exists>p'. participant app' = Some p' \<and> corsi_span p' = corsi_span p \<and>
                      corsi_spans p' = corsi_spans p \<and> current_trial p' = current_trial p \<and>
                      errors p \<le> errors p')))"

text \<open>
  A sequence that stands marked incorrect in the state \<open>Feedback\<close> has counted an
  error since the count \<open>e\<close>.
\<close>

definition failed_since :: "nat \<Rightarrow> application \<Rightarrow> bool" where
  "failed_since e app =
     (case participant app of
        None \<Rightarrow> True
      | Some p \<Rightarrow> e \<le> errors p \<and>
          (state app = Feedback \<and> \<not> correct_s (sequence app) \<longrightarrow> e < errors p))"

text \<open>The two states in which a render tick calls \<^verbatim>\<open>show\<close>.\<close>

definition presenting :: "application \<Rightarrow> bool" where
  "presenting app = (state app = ShowSequence \<or> state app = UserInput)"

text \<open>
  Two failed attempts from \<open>demo_input\<close>: a wrong first click, the feedback, the new
  sequence of the same length and its presentation, a wrong first click again, and
  the feedback that ends the trial.
\<close>

definition demo_fail1 :: application where
  "demo_fail1 = demo_input
     \<lparr> state := Feedback,
       sequence := (sequence demo_input)
          \<lparr> boxes := demo_boxes[1 := (demo_boxes ! 1)\<lparr> clicked := True \<rparr>] \<rparr>,
       participant := Some ((Participant 5)\<lparr> errors := 1 \<rparr>) \<rparr>"

definition demo_retry_show :: application where
  "demo_retry_show = demo_input
     \<lparr> state := ShowSequence,
       sequence := (sequence demo_input)
          \<lparr> highlight_box_id := 0,
            boxes := [Box (75, 80) 50, Box (675, 374) 50, Box (324, 223) 50, Box (624, 523) 50] \<rparr>,
       participant := Some ((Participant 5)\<lparr> errors := 1 \<rparr>) \<rparr>"

definition demo_clocks :: "(nat \<Rightarrow> real) list" where
  "demo_clocks = [\<lambda>k. 5 / 2, \<lambda>k. 15 / 4, \<lambda>k. 5, \<lambda>k. 7]"

definition demo_retry :: application where
  "demo_retry = demo_input\<lparr> participant := Some ((Participant 5)\<lparr> errors := 1 \<rparr>) \<rparr>"

definition demo_fail2 :: application where
  "demo_fail2 = demo_input
     \<lparr> state := Feedback,
       sequence := (sequence demo_input)
          \<lparr> boxes := demo_boxes[1 := (demo_boxes ! 1)\<lparr> clicked := True \<rparr>] \<rparr>,
       participant := Some ((Participant 5)\<lparr> errors := 2 \<rparr>) \<rparr>"

definition demo_over :: application where
  "demo_over = demo_fail2
     \<lparr> trial_over := True,
       participant := Some ((Participant 5)
          \<lparr> errors := 2, corsi_spans := [2], mean_corsi_span := 2, std_corsi_span := 0 \<rparr>) \<rparr>"

text \<open>
  A successful attempt from \<open>demo_input2\<close>: the third box is clicked, the feedback
  raises the span to 3, and the next sequence is generated.
\<close>

definition demo_ok :: application where
  "demo_ok = demo_input
     \<lparr> state := Feedback,
       sequence := (sequence demo_input)
          \<lparr> boxes := demo_boxes[0 := (demo_boxes ! 0)\<lparr> correct := True \<rparr>,
                                 1 := (demo_boxes ! 1)\<lparr> correct := True \<rparr>,
                                 2 := (demo_boxes ! 2)\<lparr> clicked := True, correct := True \<rparr>],
            correct_s := True \<rparr>,
       participant := Some ((Participant 5)\<lparr> clicks := 2 \<rparr>) \<rparr>"

definition demo_ok2 :: application where
  "demo_ok2 = demo_ok\<lparr> participant := Some ((Participant 5)\<lparr> clicks := 2, corsi_span := 3 \<rparr>) \<rparr>"

definition demo_next :: application where
  "demo_next = demo_ok2
     \<lparr> state := ShowSequence,
       sequence := (sequence demo_ok2)
          \<lparr> length_s := Some 4, highlight_box_id := 0,
            boxes := [Box (75, 80) 50, Box (675, 374) 50, Box (324, 223) 50, Box (624, 523) 50] \<rparr>,
       participant := Some ((Participant 5)\<lparr> corsi_span := 3 \<rparr>) \<rparr>"

text \<open>
  The start of the session that leads to \<open>demo_input\<close>: the first sequence, as
  generated after the instructions.
\<close>

definition demo_show0 :: application where
  "demo_show0 = demo_input
     \<lparr> state := ShowSequence,
       sequence := (sequence demo_input)
          \<lparr> highlight_box_id := 0, last_box_highlighted := 0,
            boxes := [Box (75, 80) 50, Box (675, 374) 50, Box (324, 223) 50, Box (624, 523) 50] \<rparr> \<rparr>"

text \<open>
  The state after the second failed attempt (\<open>demo_fail2\<close>) when the space key is
  handled before any render tick: a third sequence of the same length.
\<close>

definition demo_third :: application where
  "demo_third = demo_input
     \<lparr> state := ShowSequence,
       sequence := (sequence demo_input)
          \<lparr> highlight_box_id := 0,
            boxes := [Box (75, 80) 50, Box (675, 374) 50, Box (324, 223) 50, Box (624, 523) 50] \<rparr>,
       participant := Some ((Participant 5)\<lparr> errors := 2 \<rparr>) \<rparr>"

text \<open>
  The sequence of all four boxes that follows \<open>demo_next\<close>: its presentation, the
  state after it, the states after the first, the second and the third box were
  clicked, the state after the last box was clicked, and the state after that when
  the space key is handled before any render tick.
\<close>

definition demo_clocks4 :: "(nat \<Rightarrow> real) list" where
  "demo_clocks4 = [clock_at 9, clock_at (41 / 4), clock_at (23 / 2), clock_at (51 / 4), clock_at 14]"

definition demo_full_start :: application where
  "demo_full_start = demo_next
     \<lparr> state := UserInput,
       sequence := (sequence demo_next)
          \<lparr> highlight_box_id := 4, last_box_highlighted := 51 / 4, boxes := demo_boxes \<rparr> \<rparr>"

definition demo_full1 :: application where
  "demo_full1 = demo_full_start
     \<lparr> sequence := (sequence demo_full_start)
          \<lparr> boxes := demo_boxes[0 := (demo_boxes ! 0)\<lparr> clicked := True, correct := True \<rparr>] \<rparr>,
       participant := Some ((Participant 5)\<lparr> corsi_span := 3, clicks := 1 \<rparr>) \<rparr>"

definition demo_full2 :: application where
  "demo_full2 = demo_full_start
     \<lparr> sequence := (sequence demo_full_start)
          \<lparr> boxes := demo_boxes[0 := (demo_boxes ! 0)\<lparr> correct := True \<rparr>,
                                 1 := (demo_boxes ! 1)\<lparr> clicked := True, correct := True \<rparr>] \<rparr>,
       participant := Some ((Participant 5)\<lparr> corsi_span := 3, clicks := 2 \<rparr>) \<rparr>"

definition demo_full_input :: application where
  "demo_full_input = demo_full_start
     \<lparr> sequence := (sequence demo_full_start)
          \<lparr> boxes := demo_boxes[0 := (demo_boxes ! 0)\<lparr> correct := True \<rparr>,
                                 1 := (demo_boxes ! 1)\<lparr> correct := True \<rparr>,
                                 2 := (demo_boxes ! 2)\<lparr> clicked := True, correct := True \<rparr>] \<rparr>,
       participant := Some ((Participant 5)\<lparr> corsi_span := 3, clicks := 3 \<rparr>) \<rparr>"

definition demo_full_done :: application where
  "demo_full_done = demo_full_input
     \<lparr> state := Feedback,
       sequence := (sequence demo_full_input)
          \<lparr> boxes := demo_boxes[0 := (demo_boxes ! 0)\<lparr> correct := True \<rparr>,
                                 1 := (demo_boxes ! 1)\<lparr> correct := True \<rparr>,
                                 2 := (demo_boxes ! 2)\<lparr> correct := True \<rparr>,
                                 3 := (demo_boxes ! 3)\<lparr> clicked := True, correct := True \<rparr>] \<rparr> \<rparr>"

definition demo_full_again :: application where
  "demo_full_again = demo_full_done
     \<lparr> state := ShowSequence,
       sequence := (sequence demo_full_done)
          \<lparr> highlight_box_id := 0,
            boxes := [Box (75, 80) 50, Box (675, 374) 50, Box (324, 223) 50, Box (624, 523) 50] \<rparr>,
       participant := Some ((Participant 5)\<lparr> corsi_span := 3 \<rparr>) \<rparr>"

text \<open>
  The states of a session: the application as constructed, and every state that a
  handled event or a render tick leads to from a state of the session.
\<close>

inductive reachable :: "application \<Rightarrow> bool" where
  start: "reachable (Application scr bp delay maxp maxt)"
| event: "reachable app \<Longrightarrow> handle_event py upd rng now mouse ev app = Some (Inr app') \<Longrightarrow>
          reachable app'"
| tick: "reachable app \<Longrightarrow> update_app time app = Inr app' \<Longrightarrow> reachable app'"

text \<open>
  What holds in every state of a session: there is a participant exactly after the
  identification; the history holds one span for each trial before the current one,
  and one more once the trial is over; a sequence that is shown or clicked has the
  length of the span plus one.
\<close>

definition session_inv :: "application \<Rightarrow> bool" where
  "session_inv app =
     (case participant app of
        None \<Rightarrow> \<not> trial_over app \<and> state app = Participant_ID
      | Some p \<Rightarrow>
          state app \<noteq> Participant_ID \<and> 1 \<le> current_trial p \<and>
          int (length (corsi_spans p)) =
            (if trial_over app then current_trial p else current_trial p - 1) \<and>
          (presenting app \<longrightarrow> length_s (sequence app) = Some (corsi_span p + 1)))"

section \<open>Verified properties\<close>

subsection \<open>The box layout\<close>

lemma collision_check_dist: "collision_check bp c b = (centre_dist c b < min_dist bp)"
  by (simp add: collision_check_def centre_dist_def Let_def)

lemma centre_dist_sym: "centre_dist a b = centre_dist b a"
  by (simp add: centre_dist_def power2_commute)

lemma randint_range: "randint a b r = Inr x \<Longrightarrow> a \<le> x \<and> x \<le> b"
proof -
  assume h: "randint a b r = Inr x"
  then have ab: "a \<le> b" and x: "x = a + int (r mod nat (b - a + 1))"
    by (auto simp: randint_def split: if_splits)
  have "r mod nat (b - a + 1) < nat (b - a + 1)" using ab by (intro mod_less_divisor) simp
  then have "int (r mod nat (b - a + 1)) < b - a + 1" using ab by linarith
  with x show ?thesis by simp
qed

lemma layout_ok_snoc:
  assumes "layout_ok scr bp bs" and "in_bounds scr bp c"
    and "\<not> list_ex (collision_check bp c) bs"
  shows "layout_ok scr bp (bs @ [c])"
proof -
  have far: "min_dist bp \<le> centre_dist c b" if "b \<in> set bs" for b
    using assms(3) that by (auto simp: list_ex_iff collision_check_dist not_less)
  have "min_dist bp \<le> centre_dist ((bs @ [c]) ! i) ((bs @ [c]) ! j)"
    if "i < length (bs @ [c])" "j < length (bs @ [c])" "i \<noteq> j" for i j
  proof (cases "i < length bs")
    case True
    show ?thesis
    proof (cases "j < length bs")
      case True
      with \<open>i < length bs\<close> that assms(1) show ?thesis
        by (simp add: layout_ok_def nth_append)
    next
      case False
      with that have "j = length bs" by simp
      with True far[of "bs ! i"] show ?thesis
        by (simp add: nth_append centre_dist_sym)
    qed
  next
    case False
    with that have i: "i = length bs" and j: "j < length bs" by auto
    with far[of "bs ! j"] show ?thesis by (simp add: nth_append)
  qed
  moreover have "\<forall>b \<in> set (bs @ [c]). in_bounds scr bp b"
    using assms(1,2) by (simp add: layout_ok_def)
  ultimately show ?thesis by (simp add: layout_ok_def)
qed

lemma generate_loop_inv:
  "generate_loop scr bp rng d i bs = Some y \<Longrightarrow> y = Inr res \<Longrightarrow> layout_ok scr bp bs \<Longrightarrow>
   length bs = i \<Longrightarrow> i \<le> n_boxes bp \<Longrightarrow>
   layout_ok scr bp res \<and> length res = n_boxes bp"
proof (induction arbitrary: res rule: generate_loop.raw_induct[rotated 1, consumes 1])
  case (1 generate_loop scr bp rng d i bs y)
  show ?case
  proof (cases "i < n_boxes bp")
    case False
    with "1.prems" "1.hyps" show ?thesis by simp
  next
    case True
    from "1.hyps" True obtain x y' where
      x: "randint (margin bp) (fst scr - margin bp) (rng d) = Inr x" and
      y': "randint (margin bp) (snd scr - margin bp) (rng (d + 1)) = Inr y'"
      using "1.prems"(1) by (auto split: sum.splits)
    let ?c = "Box (x, y') (size_p bp)"
    have inb: "in_bounds scr bp ?c"
      using randint_range[OF x] randint_range[OF y'] by (simp add: in_bounds_def Box_def)
    show ?thesis
    proof (cases "list_ex (collision_check bp ?c) bs")
      case False
      with "1.hyps" True x y' have "generate_loop scr bp rng (d + 2) (i + 1) (bs @ [?c]) = Some y"
        by (simp add: Let_def)
      moreover have "layout_ok scr bp (bs @ [?c])"
        using layout_ok_snoc[OF "1.prems"(2) inb False] .
      ultimately show ?thesis
        using "1.IH"[of scr bp rng "d + 2" "i + 1" "bs @ [?c]" y res] "1.prems" True by simp
    next
      case c: True
      with "1.hyps" True x y' have "generate_loop scr bp rng (d + 2) i bs = Some y"
        by (simp add: Let_def)
      then show ?thesis
        using "1.IH"[of scr bp rng "d + 2" i bs y res] "1.prems" by simp
    qed
  qed
qed

text \<open>
  Claim C2. Every layout that \<^verbatim>\<open>generate_boxes\<close> returns holds exactly
  \<^verbatim>\<open>n_boxes\<close> boxes, any two different boxes of it have their centres at a Euclidean
  distance of at least \<^verbatim>\<open>min_dist\<close>, and the centre of every box lies within
  \<open>[margin, dimension - margin]\<close> on both axes of the screen.
\<close>

theorem generate_boxes_layout:
  assumes "generate_boxes s rng = Some (Inr bs)"
  shows "length bs = n_boxes (box_params s) \<and>
         (\<forall>i < length bs. \<forall>j < length bs. i \<noteq> j \<longrightarrow>
            min_dist (box_params s) \<le> centre_dist (bs ! i) (bs ! j)) \<and>
         (\<forall>b \<in> set bs.
            margin (box_params s) \<le> fst (pos b) \<and>
            fst (pos b) \<le> fst (screen_size s) - margin (box_params s) \<and>
            margin (box_params s) \<le> snd (pos b) \<and>
            snd (pos b) \<le> snd (screen_size s) - margin (box_params s))"
proof -
  have "layout_ok (screen_size s) (box_params s) []" by (simp add: layout_ok_def)
  with assms have "layout_ok (screen_size s) (box_params s) bs \<and> length bs = n_boxes (box_params s)"
    unfolding generate_boxes_def by (intro generate_loop_inv[where i = 0 and bs = "[]"]) auto
  then show ?thesis by (simp add: layout_ok_def in_bounds_def)
qed


lemma collision_check_iff:
  "collision_check bp c b =
     (0 < min_dist bp \<and>
      real_of_int ((fst (pos c) - fst (pos b))\<^sup>2 + (snd (pos c) - snd (pos b))\<^sup>2)
        < (min_dist bp)\<^sup>2)"
proof (cases "0 < min_dist bp")
  case True
  have "sqrt x < min_dist bp \<longleftrightarrow> x < (min_dist bp)\<^sup>2" if "0 \<le> x" for x
  proof
    assume "sqrt x < min_dist bp"
    then have "(sqrt x)\<^sup>2 < (min_dist bp)\<^sup>2"
      using that by (intro power_strict_mono) simp_all
    with that show "x < (min_dist bp)\<^sup>2" by simp
  next
    assume "x < (min_dist bp)\<^sup>2"
    then show "sqrt x < min_dist bp" using True by (intro real_less_lsqrt) simp_all
  qed
  with True show ?thesis by (simp add: collision_check_def Let_def)
next
  case False
  have "\<not> sqrt x < min_dist bp" if "0 \<le> x" for x
  proof -
    have "0 \<le> sqrt x" using that by simp
    with False show ?thesis by linarith
  qed
  with False show ?thesis by (simp add: collision_check_def Let_def)
qed

theorem generate_boxes_layout_witness:
  "generate_boxes (Sequence (800, 600) demo_params) demo_rng
     = Some (Inr [Box (75, 80) 50, Box (675, 374) 50, Box (324, 223) 50, Box (624, 523) 50]) \<and>
   length [Box (75, 80) 50, Box (675, 374) 50, Box (324, 223) 50, Box (624, 523) 50] = n_boxes demo_params \<and>
   min_dist demo_params \<le> centre_dist (Box (75, 80) 50) (Box (675, 374) 50) \<and>
   min_dist demo_params \<le> centre_dist (Box (675, 374) 50) (Box (324, 223) 50)"
proof -
  have g: "generate_boxes (Sequence (800, 600) demo_params) demo_rng
     = Some (Inr [Box (75, 80) 50, Box (675, 374) 50, Box (324, 223) 50, Box (624, 523) 50])"
    by (simp add: generate_boxes_def Sequence_def demo_params_def demo_rng_def
        generate_loop.simps randint_def collision_check_iff Box_def Let_def)
  from generate_boxes_layout[OF g]
  have len: "length [Box (75, 80) 50, Box (675, 374) 50, Box (324, 223) 50, Box (624, 523) 50] = n_boxes demo_params"
    and far: "\<And>i j. i < 4 \<Longrightarrow> j < 4 \<Longrightarrow> i \<noteq> j \<Longrightarrow> min_dist demo_params
        \<le> centre_dist ([Box (75, 80) 50, Box (675, 374) 50, Box (324, 223) 50, Box (624, 523) 50] ! i)
                        ([Box (75, 80) 50, Box (675, 374) 50, Box (324, 223) 50, Box (624, 523) 50] ! j)"
    by (simp_all add: Sequence_def)
  from far[of 0 1] far[of 1 2] g len show ?thesis by simp
qed

text \<open>
  The loop need not return: where the parameters leave no room for the boxes, every
  further candidate collides, for every random generator.
\<close>

lemma tight_loop_never_returns:
  "generate_loop scr bp rng d i bs = Some y \<Longrightarrow>
   scr = (150, 150) \<Longrightarrow> bp = tight_params \<Longrightarrow> i = 1 \<Longrightarrow> bs = [Box (75, 75) 50] \<Longrightarrow> False"
proof (induction rule: generate_loop.raw_induct[rotated 1, consumes 1])
  case (1 generate_loop scr bp rng d i bs y)
  have x: "randint 75 75 r = Inr 75" for r by (simp add: randint_def)
  have c: "list_ex (collision_check tight_params (Box (75, 75) 50)) [Box (75, 75) 50]"
    by (simp add: collision_check_iff tight_params_def Box_def)
  from "1.hyps" "1.prems" x c have "generate_loop scr bp rng (d + 2) i bs = Some y"
    by (simp add: tight_params_def Let_def)
  from "1.IH"[OF this] "1.prems" show False by simp
qed

lemma generate_boxes_may_not_return:
  "generate_boxes (Sequence (150, 150) tight_params) rng = None"
proof -
  have x: "randint 75 75 r = Inr 75" for r by (simp add: randint_def)
  have "generate_loop (150, 150) tight_params rng 0 0 []
          = generate_loop (150, 150) tight_params rng 2 1 [Box (75, 75) 50]"
    by (subst generate_loop.simps) (simp add: x tight_params_def Let_def numeral_2_eq_2)
  moreover have "generate_loop (150, 150) tight_params rng 2 1 [Box (75, 75) 50] = None"
    using tight_loop_never_returns[of "(150, 150)" tight_params rng 2 1 "[Box (75, 75) 50]"]
    by (cases "generate_loop (150, 150) tight_params rng 2 1 [Box (75, 75) 50]") auto
  ultimately show ?thesis by (simp add: generate_boxes_def Sequence_def)
qed

subsection \<open>The statistics\<close>

lemma rhe_mean: "round_half_even (8 / 3 * 10 ^ 2) = 267"
  by (simp add: round_half_even_def Let_def)

lemma py_round_mean: "py_round (8 / 3) 2 = 267 / 100"
  by (simp add: py_round_def round_half_even_def Let_def)

lemma sqrt_bounds: 
  fixes v :: real
  assumes "v = 6667 / 30000"
  shows "47 / 100 \<le> sqrt v" "sqrt v < 475 / 1000"
proof -
  have "(47 / 100)\<^sup>2 \<le> v" using assms by (simp add: power2_eq_square)
  then show "47 / 100 \<le> sqrt v" by (rule real_le_rsqrt)
  have "v < (475 / 1000)\<^sup>2" using assms by (simp add: power2_eq_square)
  then show "sqrt v < 475 / 1000" by (intro real_less_lsqrt) simp_all
qed

lemma rhe_between:
  assumes "of_int n \<le> x" "x < of_int n + 1 / 2"
  shows "round_half_even x = n"
proof -
  have "\<lfloor>x\<rfloor> = n" using assms by (simp add: floor_eq_iff)
  then show ?thesis using assms by (simp add: round_half_even_def Let_def)
qed

lemma py_round_sd: "py_round (sqrt (6667 / 30000)) 2 = 47 / 100"
proof -
  have "round_half_even (sqrt (6667 / 30000) * 10 ^ 2) = 47"
    using sqrt_bounds[OF refl] by (intro rhe_between) simp_all
  then show ?thesis by (simp add: py_round_def)
qed

lemma update_statistics_Inr:
  assumes "update_statistics p = Inr p'"
  shows "corsi_spans p' \<noteq> []"
    and "mean_corsi_span p' =
           py_round (real_of_int (sum_list (corsi_spans p')) / real (length (corsi_spans p'))) 2"
    and "std_corsi_span p' =
           py_round (sqrt (sum_list (map (\<lambda>xi. (real_of_int xi - mean_corsi_span p')\<^sup>2)
                                      (corsi_spans p'))
                           / real (length (corsi_spans p')))) 2"
  using assms by (auto simp: update_statistics_def Let_def split: if_splits)

text \<open>
  Claim C9. For the span history \<open>[2, 3, 3]\<close> the statistics update gives the mean
  2.67 and the population standard deviation 0.47, both rounded to two decimals, the
  standard deviation being computed from the rounded mean.
\<close>

theorem statistics_2_3_3:
  assumes "update_statistics p = Inr p'" and "corsi_spans p' = [2, 3, 3]"
  shows "mean_corsi_span p' = 267 / 100 \<and> std_corsi_span p' = 47 / 100 \<and>
         std_corsi_span p' =
           py_round (sqrt (sum_list (map (\<lambda>xi. (real_of_int xi - mean_corsi_span p')\<^sup>2)
                                      (corsi_spans p'))
                           / real (length (corsi_spans p')))) 2"
proof -
  have m: "mean_corsi_span p' = 267 / 100"
    using update_statistics_Inr(2)[OF assms(1)] assms(2) by (simp add: py_round_mean)
  have sd: "std_corsi_span p' =
           py_round (sqrt (sum_list (map (\<lambda>xi. (real_of_int xi - mean_corsi_span p')\<^sup>2)
                                      (corsi_spans p'))
                           / real (length (corsi_spans p')))) 2"
    by (rule update_statistics_Inr(3)[OF assms(1)])
  have "sum_list (map (\<lambda>xi. (real_of_int xi - mean_corsi_span p')\<^sup>2) (corsi_spans p'))
          / real (length (corsi_spans p')) = 6667 / 30000"
    by (simp add: m assms(2) power2_eq_square)
  with sd have "std_corsi_span p' = 47 / 100" by (simp add: py_round_sd)
  with m sd show ?thesis by simp
qed

theorem statistics_2_3_3_witness:
  "update_statistics ((Participant 1)\<lparr> current_trial := 3, corsi_spans := [2, 3], corsi_span := 3 \<rparr>)
     = Inr ((Participant 1)\<lparr> current_trial := 3, corsi_spans := [2, 3, 3], corsi_span := 3,
                              mean_corsi_span := 267 / 100, std_corsi_span := 47 / 100 \<rparr>)"
proof -
  obtain p' where p': "update_statistics ((Participant 1)\<lparr> current_trial := 3, corsi_spans := [2, 3], corsi_span := 3 \<rparr>) = Inr p'"
    and rest: "p' = (Participant 1)\<lparr> current_trial := 3, corsi_spans := [2, 3, 3], corsi_span := 3,
                  mean_corsi_span := mean_corsi_span p', std_corsi_span := std_corsi_span p' \<rparr>"
    by (simp add: update_statistics_def Let_def Participant_def)
  have sp: "corsi_spans p' = [2, 3, 3]" by (subst rest) simp
  from statistics_2_3_3[OF p' sp] have "mean_corsi_span p' = 267 / 100" "std_corsi_span p' = 47 / 100"
    by simp_all
  with rest have "p' = (Participant 1)\<lparr> current_trial := 3, corsi_spans := [2, 3, 3], corsi_span := 3,
                              mean_corsi_span := 267 / 100, std_corsi_span := 47 / 100 \<rparr>" by simp
  with p' show ?thesis by simp
qed

subsection \<open>Concrete runs\<close>

lemma demo_boxes_eq: "demo_boxes =
  [\<lparr> pos = (75, 80), size_b = 50, highlight = False, clicked = False, correct = False,
      rect = Some (50, 55, 50, 50) \<rparr>,
   \<lparr> pos = (675, 374), size_b = 50, highlight = False, clicked = False, correct = False,
      rect = Some (650, 349, 50, 50) \<rparr>,
   \<lparr> pos = (324, 223), size_b = 50, highlight = False, clicked = False, correct = False,
      rect = Some (299, 198, 50, 50) \<rparr>,
   \<lparr> pos = (624, 523), size_b = 50, highlight = False, clicked = False, correct = False,
      rect = Some (599, 498, 50, 50) \<rparr>]"
  by (simp add: demo_boxes_def draw_def Box_def)

lemmas demo_defs = demo_input_def Application_def Sequence_def demo_params_def Participant_def

lemmas click_defs =
  handle_user_input_def click_box_def collidepoint_def Let_def ebind_def upt_conv_Cons

lemma demo_click_first: "handle_user_input (75, 80) MOUSEBUTTONUP demo_input = Inr demo_input1"
  by (simp add: demo_input1_def demo_defs demo_boxes_eq click_defs)

lemma demo_click_second:
  "handle_user_input (675, 374) MOUSEBUTTONUP demo_input1 = Inr demo_input2"
  by (simp add: demo_input1_def demo_input2_def demo_defs demo_boxes_eq click_defs)

lemma demo_click_first_again:
  "handle_user_input (75, 80) MOUSEBUTTONUP demo_input2 = Inr demo_input3"
  by (simp add: demo_input2_def demo_input3_def demo_defs demo_boxes_eq click_defs)

subsection \<open>Clicks during input collection\<close>

lemma ebind_Inr: "ebind m f = Inr y \<longleftrightarrow> (\<exists>x. m = Inr x \<and> f x = Inr y)"
  by (cases m) (simp_all add: ebind_def)

lemma ebind_simps: "ebind (Inr x) f = f x" "ebind (Inl e) f = Inl e"
  by (simp_all add: ebind_def)

text \<open>
  One pass of the loop body either leaves the boxes as they are or leaves exactly the
  box of the pass marked as clicked.
\<close>

lemma click_box_boxes:
  assumes "click_box mouse k app = Inr app'"
  shows "boxes (sequence app') = boxes (sequence app) \<or>
         (k < length (boxes (sequence app)) \<longrightarrow>
            length (boxes (sequence app')) = length (boxes (sequence app)) \<and>
            (\<forall>i < length (boxes (sequence app')). clicked (boxes (sequence app') ! i) = (i = k)))"
  using assms
  by (auto simp: click_box_def Let_def nth_list_update split: option.splits if_splits)

lemma at_most_one_clicked_only:
  assumes "\<forall>i < length bs. clicked (bs ! i) = (i = k)"
  shows "at_most_one_clicked bs"
  using assms by (simp add: at_most_one_clicked_def)

lemma click_box_length:
  assumes "click_box mouse k app = Inr app'"
  shows "length (boxes (sequence app')) = length (boxes (sequence app))"
  using assms
  by (auto simp: click_box_def Let_def split: option.splits if_splits)

lemma click_box_at_most_one:
  assumes "click_box mouse k app = Inr app'" and "k < length (boxes (sequence app))"
    and "at_most_one_clicked (boxes (sequence app))"
  shows "at_most_one_clicked (boxes (sequence app'))"
  using click_box_boxes[OF assms(1)] assms(2,3) at_most_one_clicked_only by auto

lemma click_loop_at_most_one:
  assumes "click_loop mouse ks app = Inr app'"
    and "\<forall>k \<in> set ks. k < length (boxes (sequence app))"
    and "at_most_one_clicked (boxes (sequence app))"
  shows "at_most_one_clicked (boxes (sequence app'))"
  using assms
proof (induction ks arbitrary: app)
  case Nil
  then show ?case by simp
next
  case (Cons k ks)
  from Cons.prems(1) obtain app1 where
    1: "click_box mouse k app = Inr app1" and 2: "click_loop mouse ks app1 = Inr app'"
    by (auto simp: ebind_Inr)
  have "at_most_one_clicked (boxes (sequence app1))"
    using click_box_at_most_one[OF 1] Cons.prems(2,3) by simp
  moreover have "\<forall>k \<in> set ks. k < length (boxes (sequence app1))"
    using Cons.prems(2) click_box_length[OF 1] by simp
  ultimately show ?case using Cons.IH[OF 2] by simp
qed

text \<open>
  Claim C10. During input collection at most one box of the sequence has its
  \<^verbatim>\<open>clicked\<close> flag set: a hit clears the flag of every box before it marks the box
  that was hit, so every click event that is handled keeps this invariant.
\<close>

theorem click_keeps_at_most_one_clicked:
  assumes "at_most_one_clicked (boxes (sequence app))"
    and "handle_user_input mouse ev app = Inr app'"
  shows "at_most_one_clicked (boxes (sequence app'))"
proof (cases "ev = MOUSEBUTTONUP")
  case True
  with assms(2) have "click_loop mouse [0 ..< length (boxes (sequence app))] app = Inr app'"
    by (simp add: handle_user_input_def)
  from click_loop_at_most_one[OF this _ assms(1)] show ?thesis by simp
next
  case False
  with assms show ?thesis by (simp add: handle_user_input_def)
qed

theorem click_keeps_at_most_one_clicked_witness:
  "at_most_one_clicked (boxes (sequence demo_input1)) \<and>
   handle_user_input (675, 374) MOUSEBUTTONUP demo_input1 = Inr demo_input2 \<and>
   at_most_one_clicked (boxes (sequence demo_input2)) \<and>
   map clicked (boxes (sequence demo_input1)) = [True, False, False, False] \<and>
   map clicked (boxes (sequence demo_input2)) = [False, True, False, False]"
proof -
  have flags: "map clicked (boxes (sequence demo_input1)) = [True, False, False, False]"
    "map clicked (boxes (sequence demo_input2)) = [False, True, False, False]"
    by (simp_all add: demo_input1_def demo_input2_def demo_defs demo_boxes_eq)
  have "clicked (boxes (sequence demo_input1) ! i) \<longleftrightarrow> i = 0"
    if "i < length (boxes (sequence demo_input1))" for i
    using that by (cases i) (auto simp: demo_input1_def demo_defs demo_boxes_eq nth_Cons')
  then have one: "at_most_one_clicked (boxes (sequence demo_input1))"
    by (intro at_most_one_clicked_only[where k = 0]) blast
  show ?thesis
    using click_keeps_at_most_one_clicked[OF one demo_click_second] one demo_click_second flags
    by simp
qed

text \<open>A position that hits no box, or only boxes that carry the flag, changes nothing.\<close>

lemma click_box_no_hit:
  assumes "rect (boxes (sequence app) ! k) \<noteq> None"
    and "hit mouse (boxes (sequence app) ! k) \<longrightarrow> clicked (boxes (sequence app) ! k)"
  shows "click_box mouse k app = Inr app"
  using assms by (auto simp: click_box_def hit_def Let_def split: option.splits)

lemma click_loop_no_hit:
  assumes "\<forall>k \<in> set ks. rect (boxes (sequence app) ! k) \<noteq> None \<and>
             (hit mouse (boxes (sequence app) ! k) \<longrightarrow> clicked (boxes (sequence app) ! k))"
  shows "click_loop mouse ks app = Inr app"
  using assms by (induction ks) (simp_all add: click_box_no_hit ebind_simps)

text \<open>
  Claim C4, as the code has it. For every click event during input collection (every
  box drawn), a position that hits no box without the \<^verbatim>\<open>clicked\<close> flag is a
  no-op: no box flag, no counter, no correctness flag and no state changes. In
  particular a click on the box that carries the flag now, the box hit last, changes
  nothing. The flag of a box clicked earlier in the attempt is cleared by the next hit.
\<close>

theorem click_without_unclicked_hit_is_noop:
  assumes "\<forall>b \<in> set (boxes (sequence app)). rect b \<noteq> None"
    and "\<forall>b \<in> set (boxes (sequence app)). hit mouse b \<longrightarrow> clicked b"
  shows "handle_user_input mouse ev app = Inr app"
proof -
  have "click_loop mouse [0 ..< length (boxes (sequence app))] app = Inr app"
    using assms by (intro click_loop_no_hit) simp
  then show ?thesis by (simp add: handle_user_input_def)
qed

theorem click_without_unclicked_hit_is_noop_witness:
  "hit (75, 80) (boxes (sequence demo_input1) ! 0) \<and>
   clicked (boxes (sequence demo_input1) ! 0) \<and>
   handle_user_input (75, 80) MOUSEBUTTONUP demo_input1 = Inr demo_input1"
proof -
  have bs: "boxes (sequence demo_input1) =
      (demo_boxes ! 0)\<lparr> clicked := True, correct := True \<rparr> # tl demo_boxes"
    by (simp add: demo_input1_def demo_defs demo_boxes_eq)
  have 1: "\<forall>b \<in> set (boxes (sequence demo_input1)). rect b \<noteq> None"
    by (simp add: bs demo_boxes_eq)
  have 2: "\<forall>b \<in> set (boxes (sequence demo_input1)). hit (75, 80) b \<longrightarrow> clicked b"
    by (simp add: bs demo_boxes_eq hit_def collidepoint_def)
  have "hit (75, 80) (boxes (sequence demo_input1) ! 0)"
    "clicked (boxes (sequence demo_input1) ! 0)"
    by (simp_all add: bs demo_boxes_eq hit_def collidepoint_def)
  with click_without_unclicked_hit_is_noop[OF 1 2, of MOUSEBUTTONUP] show ?thesis by simp
qed

text \<open>
  Claim C4 as stated fails for a box that was marked clicked earlier in the attempt:
  after the first box and then the second box were clicked, a second click on the
  first box is handled as a wrong click (the state becomes \<open>Feedback\<close>, the error
  counter goes up).
\<close>

theorem earlier_clicked_box_counterexample:
  "handle_user_input (75, 80) MOUSEBUTTONUP demo_input = Inr demo_input1 \<and>
   clicked (boxes (sequence demo_input1) ! 0) \<and>
   handle_user_input (675, 374) MOUSEBUTTONUP demo_input1 = Inr demo_input2 \<and>
   handle_user_input (75, 80) MOUSEBUTTONUP demo_input2 = Inr demo_input3 \<and>
   demo_input3 \<noteq> demo_input2"
proof -
  have "clicked (boxes (sequence demo_input1) ! 0)"
    by (simp add: demo_input1_def demo_defs demo_boxes_eq)
  moreover have "state demo_input3 \<noteq> state demo_input2"
    by (simp add: demo_input2_def demo_input3_def demo_defs)
  then have "demo_input3 \<noteq> demo_input2" by auto
  ultimately show ?thesis
    using demo_click_first demo_click_second demo_click_first_again by simp
qed

subsection \<open>Feedback\<close>

lemma update_statistics_total:
  assumes "1 \<le> current_trial p"
  shows "\<exists>p'. update_statistics p = Inr p'"
proof -
  have "(if int (length (corsi_spans p)) < current_trial p
         then corsi_spans p @ [corsi_span p] else corsi_spans p) \<noteq> []"
    using assms by auto
  then show ?thesis by (simp add: update_statistics_def Let_def)
qed

lemma show_feedback_message:
  assumes "show_feedback app = Inr ((message, feedback), app')"
  shows "message =
           (if correct_s (sequence app) then
              (if length_s (sequence app) = Some (int (n_boxes (box_params (sequence app))))
               then ''Congratulations! You won!'' else ''Great job!'')
            else if \<exists>p. participant app = Some p \<and> errors p = 1 then ''One more try!''
            else ''Trial finished!'')"
  using assms
  by (auto simp: show_feedback_def ebind_def Let_def split: option.splits if_splits sum.splits)

text \<open>
  What the feedback does once a render tick runs it: it gives the win message
  exactly for a sequence that is marked correct and whose length equals
  \<^verbatim>\<open>n_boxes\<close>, and then sets \<^verbatim>\<open>trial_over\<close>.
\<close>

lemma won_iff_full_length_correct:
  assumes "participant app = Some p" and "1 \<le> current_trial p"
  shows "(\<forall>message feedback app'.
            show_feedback app = Inr ((message, feedback), app') \<longrightarrow>
              ((message = ''Congratulations! You won!'') =
                 (correct_s (sequence app) \<and>
                  length_s (sequence app) = Some (int (n_boxes (box_params (sequence app)))))) \<and>
              (message = ''Congratulations! You won!'' \<longrightarrow> trial_over app')) \<and>
         (correct_s (sequence app) \<and>
          length_s (sequence app) = Some (int (n_boxes (box_params (sequence app)))) \<longrightarrow>
            (\<exists>feedback app'.
               show_feedback app = Inr ((''Congratulations! You won!'', feedback), app') \<and>
               trial_over app'))"
proof (intro conjI allI impI)
  fix message feedback app'
  assume h: "show_feedback app = Inr ((message, feedback), app')"
  from show_feedback_message[OF h]
  show "(message = ''Congratulations! You won!'') =
          (correct_s (sequence app) \<and>
           length_s (sequence app) = Some (int (n_boxes (box_params (sequence app)))))"
    by (simp split: if_splits)
  assume "message = ''Congratulations! You won!''"
  with h show "trial_over app'"
    by (auto simp: show_feedback_def ebind_def Let_def split: option.splits if_splits sum.splits)
next
  assume c: "correct_s (sequence app) \<and>
          length_s (sequence app) = Some (int (n_boxes (box_params (sequence app))))"
  let ?p1 = "p\<lparr> errors := 0, corsi_span := int (n_boxes (box_params (sequence app))) \<rparr>"
  from assms(2) have "1 \<le> current_trial ?p1" by simp
  from update_statistics_total[OF this] obtain p2 where "update_statistics ?p1 = Inr p2" ..
  with c assms(1) show "\<exists>feedback app'.
               show_feedback app = Inr ((''Congratulations! You won!'', feedback), app') \<and>
               trial_over app'"
    by (simp add: show_feedback_def ebind_def Let_def)
qed

lemma won_iff_full_length_correct_run:
  "participant demo_won = Some ((Participant 5)\<lparr> corsi_span := 3, clicks := 3 \<rparr>) \<and>
   correct_s (sequence demo_won) \<and>
   length_s (sequence demo_won) = Some (int (n_boxes (box_params (sequence demo_won)))) \<and>
   (\<exists>feedback app'.
      show_feedback demo_won = Inr ((''Congratulations! You won!'', feedback), app') \<and>
      trial_over app')"
proof -
  have p: "participant demo_won = Some ((Participant 5)\<lparr> corsi_span := 3, clicks := 3 \<rparr>)"
    and t: "1 \<le> current_trial ((Participant 5)\<lparr> corsi_span := 3, clicks := 3 \<rparr>)"
    and c: "correct_s (sequence demo_won)"
    and l: "length_s (sequence demo_won) = Some (int (n_boxes (box_params (sequence demo_won))))"
    by (simp_all add: demo_won_def demo_defs)
  from won_iff_full_length_correct[OF p t] c l p show ?thesis by blast
qed

subsection \<open>The participant identifier\<close>

lemmas py_int_defs = py_int_def strip_def parse_stripped_def to_ascii_def int_space_def
  unicode_space_def is_digit_def digit_val_def ascii_def demo_python_def Let_def

lemma py_int_examples:
  "py_int demo_python (ascii ''5'') = Some 5"
  "py_int demo_python (ascii ''25'') = Some 25"
  "py_int demo_python (ascii '' +1_0 '') = Some 10"
  "py_int demo_python (ascii ''1__0'') = None"
  "py_int demo_python (ascii ''-7'') = Some (- 7)"
  "py_int demo_python [] = None"
  "py_int demo_python (ascii ''12a'') = None"
  "py_int demo_python (ascii ''_1'') = None"
  "py_int demo_python (ascii ''1_'') = None"
  "py_int demo_python (ascii ''abc'') = None"
  "py_int demo_python (ascii ''+ 5'') = None"
  "py_int demo_python (ascii ''007'') = Some 7"
  "py_int demo_python (0xA0 # ascii ''5'') = Some 5"
  "py_int demo_python (ascii ''5'' @ [0x85]) = Some 5"
  "py_int demo_python (0x1C # ascii ''5'') = None"
  "py_int demo_python [53, 0] = None"
  "py_int demo_python [0x662, 0x665] = Some 25"
  "py_int demo_python [53, 0x3000] = Some 5"
  "py_int demo_python [53, 32, 0x665] = None"
  "py_int demo_python [0x2212, 53] = None"
  by (simp_all add: py_int_defs)

text \<open>A string of ASCII digits within the digit limit parses to the number it writes.\<close>

lemma parse_digits_digits:
  assumes "\<forall>d \<in> set ds. d < 10"
  shows "parse_digits acc (map (\<lambda>d. 48 + d) ds) = Some (foldl (\<lambda>a d. 10 * a + int d) acc ds)"
  using assms
proof (induction ds arbitrary: acc)
  case Nil
  then show ?case by simp
next
  case (Cons d ds)
  show ?case
  proof (cases ds)
    case Nil
    with Cons.prems show ?thesis by (simp add: is_digit_def digit_val_def)
  next
    case (Cons d' ds')
    with Cons.prems have "48 + d' \<noteq> 95" by auto
    with Cons Cons.prems Cons.IH[of "10 * acc + int d"] show ?thesis
      by (simp add: is_digit_def digit_val_def)
  qed
qed

lemma strip_digits:
  assumes "\<forall>d \<in> set ds. d < 10"
  shows "strip (map (\<lambda>d. 48 + d) ds) = map (\<lambda>d. 48 + d) ds"
proof -
  have ns: "\<not> int_space (48 + d)" if "d < 10" for d
    using that by (auto simp: int_space_def)
  have 1: "dropWhile int_space (map (\<lambda>d. 48 + d) ds) = map (\<lambda>d. 48 + d) ds"
    using assms ns by (cases ds) auto
  have 2: "dropWhile int_space (rev (map (\<lambda>d. 48 + d) ds)) = rev (map (\<lambda>d. 48 + d) ds)"
    using assms ns by (cases ds rule: rev_cases) auto
  show ?thesis by (simp add: strip_def 1 2)
qed

lemma parse_stripped_plain:
  assumes "t = c # cs" and "c \<noteq> 45" and "c \<noteq> 43"
    and "int_max_str_digits py = 0 \<or> length (filter is_digit t) \<le> int_max_str_digits py"
  shows "parse_stripped py t = parse_digits 0 t"
  using assms by (auto simp: parse_stripped_def Let_def simp del: parse_digits.simps)

lemma py_int_digits:
  assumes "ds \<noteq> []" and "\<forall>d \<in> set ds. d < 10"
    and "int_max_str_digits py = 0 \<or> length ds \<le> int_max_str_digits py"
  shows "py_int py (map (\<lambda>d. 48 + d) ds) = Some (decimal_value ds)"
proof -
  have a: "map (to_ascii py) (map (\<lambda>d. 48 + d) ds) = map (\<lambda>d. 48 + d) ds"
    using assms(2) by (auto simp: to_ascii_def)
  obtain d ds' where ds: "ds = d # ds'" using assms(1) by (cases ds) auto
  have f: "filter is_digit (map (\<lambda>d. 48 + d) ds) = map (\<lambda>d. 48 + d) ds"
    using assms(2) by (auto simp: is_digit_def filter_id_conv)
  have sgn: "48 + d \<noteq> 45" "48 + d \<noteq> 43" by simp_all
  have t: "strip (map (to_ascii py) (map (\<lambda>d. 48 + d) ds)) = map (\<lambda>d. 48 + d) ds"
    using strip_digits[OF assms(2)] by (simp only: a)
  have c: "map (\<lambda>d. 48 + d) ds = (48 + d) # map (\<lambda>d. 48 + d) ds'"
    using ds by simp
  have l: "int_max_str_digits py = 0 \<or>
           length (filter is_digit (map (\<lambda>d. 48 + d) ds)) \<le> int_max_str_digits py"
    using assms(3) by (simp only: f length_map)
  have "py_int py (map (\<lambda>d. 48 + d) ds) = parse_digits 0 (map (\<lambda>d. 48 + d) ds)"
    unfolding py_int_def t by (rule parse_stripped_plain[OF c sgn l])
  also have "\<dots> = Some (decimal_value ds)"
    using parse_digits_digits[OF assms(2), of 0] by (simp add: decimal_value_def)
  finally show ?thesis .
qed

text \<open>
  A string that parses holds, after the replacement, nothing but digits, underscores,
  signs and whitespace.
\<close>

lemma parse_digits_chars:
  assumes "parse_digits acc cs = Some n"
  shows "\<forall>c \<in> set cs. is_digit c \<or> c = 95"
  using assms
proof (induction acc cs rule: parse_digits.induct)
  case (1 acc)
  then show ?case by simp
next
  case (2 acc c)
  then show ?case by (simp split: if_splits)
next
  case (3 acc c c' cs)
  from "3.prems" have d: "is_digit c" by (simp split: if_splits)
  show ?case
  proof (cases "c' = 95")
    case True
    with "3.prems" d obtain c'' rest where cs: "cs = c'' # rest" and d'': "is_digit c''"
      and p: "parse_digits (10 * acc + digit_val c) cs = Some n"
      by (cases cs) (simp_all split: if_splits)
    from "3.IH"(1)[OF d True cs d'' p] d True show ?thesis by simp
  next
    case False
    with "3.prems" d have "parse_digits (10 * acc + digit_val c) (c' # cs) = Some n"
      by simp
    from "3.IH"(2)[OF d False this] d show ?thesis by simp
  qed
qed

lemma parse_stripped_chars:
  assumes "parse_stripped py t = Some n"
  shows "\<forall>c \<in> set t. is_digit c \<or> c = 95 \<or> c = 43 \<or> c = 45"
proof (cases t)
  case Nil
  then show ?thesis by simp
next
  case (Cons c cs)
  let ?ds = "if c = 45 \<or> c = 43 then cs else t"
  from assms Cons have "\<exists>m. parse_digits 0 ?ds = Some m"
    by (auto simp: parse_stripped_def Let_def simp del: parse_digits.simps split: if_splits)
  then obtain m where "parse_digits 0 ?ds = Some m" ..
  from parse_digits_chars[OF this] Cons show ?thesis by (auto split: if_splits)
qed

lemma set_dropWhile_space: "set t \<subseteq> set (dropWhile int_space t) \<union> {c. int_space c}"
  by (induction t) auto

lemma set_strip: "set t \<subseteq> set (strip t) \<union> {c. int_space c}"
proof -
  have "set (dropWhile int_space t) \<subseteq> set (strip t) \<union> {c. int_space c}"
    using set_dropWhile_space[of "rev (dropWhile int_space t)"] by (simp add: strip_def)
  with set_dropWhile_space[of t] show ?thesis by blast
qed

lemma py_int_chars:
  assumes "py_int py txt = Some n" and "c \<in> set txt"
  shows "is_digit (to_ascii py c) \<or> to_ascii py c = 95 \<or> to_ascii py c = 43 \<or>
         to_ascii py c = 45 \<or> int_space (to_ascii py c)"
proof -
  from assms(2) have "to_ascii py c \<in> set (map (to_ascii py) txt)" by simp
  with set_strip have "to_ascii py c \<in> set (strip (map (to_ascii py) txt)) \<or> int_space (to_ascii py c)"
    by blast
  with parse_stripped_chars[OF assms(1)[unfolded py_int_def]] show ?thesis by blast
qed

text \<open>
  Claim C8. An identifier confirmed with the return key in the identification state
  is accepted if and only if \<^verbatim>\<open>int\<close> parses it to a number of
  \<open>[1, max_participants]\<close>. On acceptance the participant is created and the state
  becomes \<open>Instructions\<close>. Otherwise the state and the (absent) participant stay as
  they are, a message is printed, and nothing else changes (the text of the widget
  is what the widget itself makes of the event). What parses is fixed: a string of
  decimal digits within the digit limit parses to the number it writes, and a string
  with a character that is neither a digit, an underscore, a sign nor whitespace
  does not parse.
\<close>

theorem id_accepted_iff_valid:
  assumes "handle_id_input py upd (KEYDOWN K_RETURN) app = (app', msg)"
  shows "(\<forall>n. py_int py (upd (text_input app) (KEYDOWN K_RETURN)) = Some n \<and>
              1 \<le> n \<and> n \<le> max_participants app \<longrightarrow>
            app' = app\<lparr> text_input := upd (text_input app) (KEYDOWN K_RETURN),
                         participant := Some (Participant n), state := Instructions \<rparr> \<and>
            msg = None) \<and>
         (\<not> valid_id py (max_participants app) (upd (text_input app) (KEYDOWN K_RETURN)) \<longrightarrow>
            app' = app\<lparr> text_input := upd (text_input app) (KEYDOWN K_RETURN) \<rparr> \<and>
            state app' = state app \<and> participant app' = participant app \<and> msg \<noteq> None) \<and>
         (valid_id py (max_participants app) (upd (text_input app) (KEYDOWN K_RETURN)) =
            (\<exists>n. py_int py (upd (text_input app) (KEYDOWN K_RETURN)) = Some n \<and>
                  1 \<le> n \<and> n \<le> max_participants app)) \<and>
         (\<forall>ds. ds \<noteq> [] \<and> (\<forall>d \<in> set ds. d < 10) \<and>
               (int_max_str_digits py = 0 \<or> length ds \<le> int_max_str_digits py) \<longrightarrow>
               py_int py (map (\<lambda>d. 48 + d) ds) = Some (decimal_value ds)) \<and>
         (\<forall>txt n c. py_int py txt = Some n \<and> c \<in> set txt \<longrightarrow>
               is_digit (to_ascii py c) \<or> to_ascii py c = 95 \<or> to_ascii py c = 43 \<or>
               to_ascii py c = 45 \<or> int_space (to_ascii py c))"
proof -
  have 1: "\<forall>n. py_int py (upd (text_input app) (KEYDOWN K_RETURN)) = Some n \<and>
              1 \<le> n \<and> n \<le> max_participants app \<longrightarrow>
            app' = app\<lparr> text_input := upd (text_input app) (KEYDOWN K_RETURN),
                         participant := Some (Participant n), state := Instructions \<rparr> \<and>
            msg = None"
    using assms by (auto simp: handle_id_input_def Let_def)
  have 2: "\<not> valid_id py (max_participants app) (upd (text_input app) (KEYDOWN K_RETURN)) \<longrightarrow>
            app' = app\<lparr> text_input := upd (text_input app) (KEYDOWN K_RETURN) \<rparr> \<and>
            state app' = state app \<and> participant app' = participant app \<and> msg \<noteq> None"
    using assms
    by (auto simp: handle_id_input_def valid_id_def Let_def split: option.splits if_splits)
  have 3: "valid_id py (max_participants app) (upd (text_input app) (KEYDOWN K_RETURN)) =
            (\<exists>n. py_int py (upd (text_input app) (KEYDOWN K_RETURN)) = Some n \<and>
                  1 \<le> n \<and> n \<le> max_participants app)"
    by (auto simp: valid_id_def split: option.splits)
  have 4: "\<forall>ds. ds \<noteq> [] \<and> (\<forall>d \<in> set ds. d < 10) \<and>
               (int_max_str_digits py = 0 \<or> length ds \<le> int_max_str_digits py) \<longrightarrow>
               py_int py (map (\<lambda>d. 48 + d) ds) = Some (decimal_value ds)"
    using py_int_digits by blast
  have 5: "\<forall>txt n c. py_int py txt = Some n \<and> c \<in> set txt \<longrightarrow>
               is_digit (to_ascii py c) \<or> to_ascii py c = 95 \<or> to_ascii py c = 43 \<or>
               to_ascii py c = 45 \<or> int_space (to_ascii py c)"
    using py_int_chars by blast
  from 1 2 3 4 5 show ?thesis by (intro conjI)
qed

theorem id_accepted_iff_valid_witness:
  "handle_id_input demo_python demo_widget (KEYDOWN K_RETURN)
      ((Application (800, 600) demo_params 1 20 3)\<lparr> text_input := ascii ''5'' \<rparr>)
     = ((Application (800, 600) demo_params 1 20 3)
          \<lparr> text_input := ascii ''5'', participant := Some (Participant 5),
            state := Instructions \<rparr>,
        None) \<and>
   snd (handle_id_input demo_python demo_widget (KEYDOWN K_RETURN)
      ((Application (800, 600) demo_params 1 20 3)\<lparr> text_input := ascii ''25'' \<rparr>)) \<noteq> None \<and>
   fst (handle_id_input demo_python demo_widget (KEYDOWN K_RETURN)
      ((Application (800, 600) demo_params 1 20 3)\<lparr> text_input := ascii ''25'' \<rparr>))
     = (Application (800, 600) demo_params 1 20 3)\<lparr> text_input := ascii ''25'' \<rparr> \<and>
   py_int demo_python (map (\<lambda>d. 48 + d) [1, 7]) = Some 17 \<and>
   py_int demo_python (0xA0 # ascii ''5'') = Some 5"
proof -
  let ?a5 = "(Application (800, 600) demo_params 1 20 3)\<lparr> text_input := ascii ''5'' \<rparr>"
  let ?a25 = "(Application (800, 600) demo_params 1 20 3)\<lparr> text_input := ascii ''25'' \<rparr>"
  have w: "demo_widget t (KEYDOWN K_RETURN) = t" for t by (simp add: demo_widget_def)
  have v5: "py_int demo_python (ascii ''5'') = Some 5 \<and> 1 \<le> (5::int) \<and>
            5 \<le> max_participants ?a5"
    by (simp add: py_int_examples Application_def)
  have v25: "\<not> valid_id demo_python (max_participants ?a25) (ascii ''25'')"
    by (simp add: valid_id_def py_int_examples Application_def)
  obtain a m where r5: "handle_id_input demo_python demo_widget (KEYDOWN K_RETURN) ?a5 = (a, m)"
    by (cases "handle_id_input demo_python demo_widget (KEYDOWN K_RETURN) ?a5")
  obtain b n where r25: "handle_id_input demo_python demo_widget (KEYDOWN K_RETURN) ?a25 = (b, n)"
    by (cases "handle_id_input demo_python demo_widget (KEYDOWN K_RETURN) ?a25")
  have d: "[1, 7] \<noteq> ([]::nat list) \<and> (\<forall>d \<in> set [1, 7::nat]. d < 10) \<and>
           (int_max_str_digits demo_python = 0 \<or>
            length [1, 7::nat] \<le> int_max_str_digits demo_python)"
    by (simp add: demo_python_def)
  from id_accepted_iff_valid[OF r5] v5
  have "a = ?a5\<lparr> participant := Some (Participant 5), state := Instructions \<rparr> \<and> m = None"
    by (simp add: w)
  moreover from id_accepted_iff_valid[OF r25] v25 have "b = ?a25 \<and> n \<noteq> None"
    by (simp add: w)
  moreover from id_accepted_iff_valid[OF r5] d
  have "py_int demo_python (map (\<lambda>d. 48 + d) [1, 7]) = Some (decimal_value [1, 7])"
    by blast
  then have "py_int demo_python (map (\<lambda>d. 48 + d) [1, 7]) = Some 17"
    by (simp add: decimal_value_def)
  ultimately show ?thesis using r5 r25 py_int_examples(13) by simp
qed

subsection \<open>Presentation\<close>

lemma draw_idem: "draw (draw b) = draw b"
  by (simp add: draw_def)

lemma draw_comp_idem: "draw \<circ> draw = draw"
  by (rule ext) (simp add: draw_idem)

lemma map_draw_idem: "map draw (map draw bs) = map draw bs"
  by (simp add: draw_comp_idem)

lemma highlight_draw_box: "highlight (draw b) = highlight b"
  by (simp add: draw_def)

lemma highlight_draw: "map highlight (map draw bs) = map highlight bs"
  by (simp add: highlight_draw_box)

lemma show_seq_within:
  assumes "within_threshold tr sd time s"
  shows "show_seq tr sd time s = Inr (ShowSequence, s\<lparr> boxes := map draw (boxes s) \<rparr>)"
  using assms by (auto simp: show_seq_def within_threshold_def ebind_def Let_def)

lemma within_threshold_drawn:
  "within_threshold tr sd time (s\<lparr> boxes := bs \<rparr>) = within_threshold tr sd time s"
  by (simp add: within_threshold_def)

lemma show_repeat_within_drawn:
  assumes "\<forall>time \<in> set ts. within_threshold tr sd time s"
  shows "show_repeat tr sd ts (ShowSequence, s\<lparr> boxes := map draw (boxes s) \<rparr>)
           = Inr (ShowSequence, s\<lparr> boxes := map draw (boxes s) \<rparr>)"
  using assms
proof (induction ts)
  case Nil
  then show ?case by simp
next
  case (Cons time ts)
  have "within_threshold tr sd time (s\<lparr> boxes := map draw (boxes s) \<rparr>)"
    using Cons.prems by (simp add: within_threshold_drawn)
  from show_seq_within[OF this] Cons show ?case
    by (simp add: ebind_simps draw_comp_idem)
qed

text \<open>
  Claim C7. \<^verbatim>\<open>show\<close> is idempotent on the sequence while the clock has not
  crossed the next threshold. Before the start delay has passed, and within the
  dwell time of the box that is lit, every one of any number of repeated calls
  answers \<open>ShowSequence\<close> and leaves the highlight cursor, the highlight flags and
  the time of the last highlight as they are (the only effect is that the boxes are
  drawn).
\<close>

theorem show_within_threshold_idempotent:
  assumes "\<forall>time \<in> set (t # ts). within_threshold tr sd time s"
  shows "\<exists>s'. show_repeat tr sd (t # ts) (st, s) = Inr (ShowSequence, s') \<and>
              show_seq tr sd t s = Inr (ShowSequence, s') \<and>
              s' = s\<lparr> boxes := map draw (boxes s) \<rparr> \<and>
              highlight_box_id s' = highlight_box_id s \<and>
              last_box_highlighted s' = last_box_highlighted s \<and>
              map highlight (boxes s') = map highlight (boxes s)"
proof -
  let ?s' = "s\<lparr> boxes := map draw (boxes s) \<rparr>"
  have 1: "show_seq tr sd t s = Inr (ShowSequence, ?s')"
    using assms by (intro show_seq_within) simp
  have "show_repeat tr sd ts (ShowSequence, ?s') = Inr (ShowSequence, ?s')"
    using assms by (intro show_repeat_within_drawn) simp
  with 1 have "show_repeat tr sd (t # ts) (st, s) = Inr (ShowSequence, ?s')"
    by (simp add: ebind_simps)
  with 1 show ?thesis by (simp add: highlight_draw_box)
qed

theorem show_within_threshold_idempotent_witness:
  "within_threshold 1 1 (\<lambda>k. 21 / 4) demo_showing \<and>
   within_threshold 1 1 (\<lambda>k. 23 / 4) demo_showing \<and>
   show_repeat 1 1 [\<lambda>k. 21 / 4, \<lambda>k. 23 / 4] (ShowSequence, demo_showing)
     = Inr (ShowSequence, demo_showing) \<and>
   highlight_box_id demo_showing = 1 \<and>
   map highlight (boxes demo_showing) = [True, False, False, False]"
proof -
  have w: "\<forall>time \<in> set [\<lambda>k. 21 / 4, \<lambda>k. 23 / 4 :: real]. within_threshold 1 1 time demo_showing"
    by (simp add: within_threshold_def demo_showing_def demo_defs)
  have d: "demo_showing\<lparr> boxes := map draw (boxes demo_showing) \<rparr> = demo_showing"
    by (simp add: demo_showing_def demo_defs demo_boxes_eq draw_def)
  have h: "highlight_box_id demo_showing = 1"
    "map highlight (boxes demo_showing) = [True, False, False, False]"
    by (simp_all add: demo_showing_def demo_defs demo_boxes_eq)
  from show_within_threshold_idempotent[OF w, of ShowSequence] obtain s' where
    r: "show_repeat 1 1 [\<lambda>k. 21 / 4, \<lambda>k. 23 / 4] (ShowSequence, demo_showing)
          = Inr (ShowSequence, s')"
    and s': "s' = demo_showing\<lparr> boxes := map draw (boxes demo_showing) \<rparr>"
    by blast
  from s' d have "s' = demo_showing" by simp
  with r have "show_repeat 1 1 [\<lambda>k. 21 / 4, \<lambda>k. 23 / 4] (ShowSequence, demo_showing)
          = Inr (ShowSequence, demo_showing)"
    by (simp only:)
  moreover from w have "within_threshold 1 1 (\<lambda>k. 21 / 4) demo_showing"
    "within_threshold 1 1 (\<lambda>k. 23 / 4) demo_showing"
    by simp_all
  ultimately show ?thesis using h by (simp only: simp_thms)
qed

subsection \<open>Frame lemmas\<close>

text \<open>What the statistics update and the feedback leave as it is.\<close>

lemma update_statistics_frame:
  assumes "update_statistics p = Inr p'"
  shows "\<exists>m sd. p' = p\<lparr> corsi_spans :=
                        (if int (length (corsi_spans p)) < current_trial p
                         then corsi_spans p @ [corsi_span p] else corsi_spans p),
                      mean_corsi_span := m, std_corsi_span := sd \<rparr>"
  using assms by (auto simp: update_statistics_def Let_def split: if_splits)

lemma update_statistics_idem:
  assumes "update_statistics p = Inr p'" and "current_trial p - 1 \<le> int (length (corsi_spans p))"
  shows "update_statistics p' = Inr p'"
  using assms by (auto simp: update_statistics_def Let_def split: if_splits)

lemma show_feedback_incorrect:
  assumes "show_feedback app = Inr (out, app')" and "participant app = Some p"
    and "\<not> correct_s (sequence app)"
  shows "\<exists>p'. participant app' = Some p' \<and> corsi_span p' = corsi_span p \<and>
              errors p' = errors p \<and> clicks p' = clicks p \<and>
              current_trial p' = current_trial p \<and>
              trial_over app' = (trial_over app \<or> errors p \<noteq> 1) \<and>
              (\<not> trial_over app' \<longrightarrow> app' = app) \<and>
              (trial_over app' \<longrightarrow> update_statistics p = Inr p') \<and>
              app' = app\<lparr> participant := Some p', trial_over := trial_over app' \<rparr>"
  using assms
  by (auto simp: show_feedback_def ebind_def Let_def
      dest!: update_statistics_frame split: if_splits sum.splits)

lemma show_feedback_correct:
  assumes "show_feedback app = Inr (out, app')" and "participant app = Some p"
    and "correct_s (sequence app)"
  shows "\<exists>len p'. length_s (sequence app) = Some len \<and> participant app' = Some p' \<and>
              corsi_span p' = len \<and> errors p' = 0 \<and> clicks p' = clicks p \<and>
              current_trial p' = current_trial p \<and>
              trial_over app' = (trial_over app \<or> len = int (n_boxes (box_params (sequence app)))) \<and>
              (\<not> trial_over app' \<longrightarrow> p' = p\<lparr> errors := 0, corsi_span := len \<rparr>) \<and>
              (trial_over app' \<longrightarrow> update_statistics (p\<lparr> errors := 0, corsi_span := len \<rparr>) = Inr p') \<and>
              app' = app\<lparr> participant := Some p', trial_over := trial_over app' \<rparr>"
  using assms
  by (auto simp: show_feedback_def ebind_def Let_def
      dest!: update_statistics_frame split: if_splits sum.splits option.splits)

subsection \<open>Feedback ticks\<close>

lemma update_statistics_fields:
  assumes "update_statistics p = Inr p'"
  shows "corsi_spans p' = (if int (length (corsi_spans p)) < current_trial p
                           then corsi_spans p @ [corsi_span p] else corsi_spans p)"
    and "corsi_span p' = corsi_span p" and "current_trial p' = current_trial p"
    and "errors p' = errors p" and "clicks p' = clicks p"
    and "participant_id p' = participant_id p"
  using assms by (auto simp: update_statistics_def Let_def split: if_splits)

lemma show_feedback_idem:
  assumes "show_feedback app = Inr (out, app1)" and "participant app = Some p"
    and "current_trial p - 1 \<le> int (length (corsi_spans p))" and "trial_over app1"
  shows "\<exists>out1. show_feedback app1 = Inr (out1, app1)"
proof (cases "correct_s (sequence app)")
  case True
  from show_feedback_correct[OF assms(1,2) True] obtain len p1 where
    len: "length_s (sequence app) = Some len" and p1: "participant app1 = Some p1"
    and sp: "corsi_span p1 = len" and er: "errors p1 = 0"
    and us: "update_statistics (p\<lparr> errors := 0, corsi_span := len \<rparr>) = Inr p1"
    and app1: "app1 = app\<lparr> participant := Some p1, trial_over := trial_over app1 \<rparr>"
    using assms(4) by blast
  have eq: "p1\<lparr> errors := 0, corsi_span := len \<rparr> = p1" using sp er by simp
  have "update_statistics p1 = Inr p1"
    using update_statistics_idem[OF us] assms(3) by simp
  then show ?thesis
    using True len assms(4) eq
    by (subst (1 2) app1) (simp add: show_feedback_def ebind_def Let_def)
next
  case False
  from show_feedback_incorrect[OF assms(1,2) False] obtain p1 where
    p1: "participant app1 = Some p1" and er: "errors p1 = errors p"
    and us: "update_statistics p = Inr p1"
    and app1: "app1 = app\<lparr> participant := Some p1, trial_over := trial_over app1 \<rparr>"
    using assms(4) by blast
  have "update_statistics p1 = Inr p1"
    using update_statistics_idem[OF us] assms(3) by simp
  then show ?thesis
    using False assms(4)
    by (subst (1 2) app1) (simp add: show_feedback_def ebind_def Let_def)
qed

lemma show_feedback_state:
  assumes "show_feedback app = Inr (out, app')"
  shows "state app' = state app"
  using assms
  by (auto simp: show_feedback_def ebind_def Let_def split: if_splits sum.splits option.splits)

lemma ticks_fixed:
  assumes "\<And>time. update_app time app = Inr app"
  shows "ticks ts app = Inr app"
  by (induction ts) (simp_all add: assms ebind_simps)

subsection \<open>Clicks, generation and presentation: what stays\<close>

lemma click_frame_refl: "click_frame app app"
  by (simp add: click_frame_def split: option.splits)

lemma click_frame_trans: "click_frame a b \<Longrightarrow> click_frame b c \<Longrightarrow> click_frame a c"
  by (fastforce simp: click_frame_def split: option.splits)

lemma click_box_frame:
  assumes "click_box mouse k app = Inr app'"
  shows "click_frame app app'"
  using assms
  by (auto simp: click_box_def click_frame_def Let_def split: option.splits if_splits)

lemma click_loop_frame:
  assumes "click_loop mouse ks app = Inr app'"
  shows "click_frame app app'"
  using assms
proof (induction ks arbitrary: app)
  case Nil
  then show ?case by (simp add: click_frame_refl)
next
  case (Cons k ks)
  then obtain app1 where "click_box mouse k app = Inr app1" "click_loop mouse ks app1 = Inr app'"
    by (auto simp: ebind_Inr)
  with Cons.IH click_box_frame show ?case by (blast intro: click_frame_trans)
qed

lemma handle_user_input_frame:
  assumes "handle_user_input mouse ev app = Inr app'"
  shows "click_frame app app'"
  using assms click_loop_frame
  by (auto simp: handle_user_input_def click_frame_refl split: if_splits)

lemma click_box_failed_since:
  assumes "click_box mouse k app = Inr app'" and "failed_since e app"
  shows "failed_since e app'"
  using assms
  by (auto simp: click_box_def failed_since_def Let_def split: option.splits if_splits)

lemma click_loop_failed_since:
  assumes "click_loop mouse ks app = Inr app'" and "failed_since e app"
  shows "failed_since e app'"
  using assms
proof (induction ks arbitrary: app)
  case Nil
  then show ?case by simp
next
  case (Cons k ks)
  then obtain app1 where "click_box mouse k app = Inr app1" "click_loop mouse ks app1 = Inr app'"
    by (auto simp: ebind_Inr)
  with Cons.IH Cons.prems(2) click_box_failed_since show ?case by blast
qed

lemma failed_attempt_counts:
  assumes "handle_user_input mouse ev app = Inr app'"
    and "participant app = Some p" and "state app \<noteq> Feedback"
    and "state app' = Feedback" and "\<not> correct_s (sequence app')"
  shows "\<exists>p'. participant app' = Some p' \<and> errors p < errors p'"
proof -
  have "failed_since (errors p) app" using assms(2,3) by (simp add: failed_since_def)
  moreover from assms(1,3,4) have "click_loop mouse [0 ..< length (boxes (sequence app))] app = Inr app'"
    by (auto simp: handle_user_input_def split: if_splits)
  ultimately have "failed_since (errors p) app'" by (rule click_loop_failed_since[rotated])
  moreover from handle_user_input_frame[OF assms(1)] assms(2)
  obtain p' where "participant app' = Some p'" by (auto simp: click_frame_def)
  ultimately show ?thesis using assms(4,5) by (auto simp: failed_since_def)
qed

lemma generate_Inr:
  assumes "generate s len rng = Some (Inr s')"
  shows "length_s s' = Some len \<and> highlight_box_id s' = 0 \<and> box_params s' = box_params s \<and>
         correct_s s' = correct_s s \<and> screen_size s' = screen_size s \<and>
         generate_boxes (s\<lparr> length_s := Some len \<rparr>) rng = Some (Inr (boxes s'))"
  using assms by (auto simp: generate_def ebind_Inr)

lemma generate_sequence_Inr:
  assumes "generate_sequence rng app = Some (Inr app')" and "participant app = Some p"
  shows "participant app' = Some (p\<lparr> clicks := 0 \<rparr>) \<and> state app' = ShowSequence \<and>
         length_s (sequence app') = Some (corsi_span p + 1) \<and>
         trial_over app' = trial_over app \<and> max_trials app' = max_trials app \<and>
         box_params (sequence app') = box_params (sequence app)"
  using assms
  by (auto simp: generate_sequence_def ebind_Inr Let_def dest!: generate_Inr)

lemma handle_feedback_input_retry:
  assumes "\<not> trial_over app"
  shows "handle_feedback_input rng (KEYDOWN K_SPACE) app = generate_sequence rng app"
  using assms by (simp add: handle_feedback_input_def)

lemma show_seq_frame:
  assumes "show_seq tr sd time s = Inr (st, s')"
  shows "(st = ShowSequence \<or> st = UserInput) \<and> length_s s' = length_s s \<and>
         box_params s' = box_params s \<and> correct_s s' = correct_s s"
  using assms
  by (auto simp: show_seq_def ebind_def Let_def set_highlight_def
      split: if_splits sum.splits option.splits)

lemma update_app_presenting:
  assumes "update_app time app = Inr app'" and "presenting app"
  shows "presenting app' \<and> participant app' = participant app \<and>
         trial_over app' = trial_over app \<and> max_trials app' = max_trials app \<and>
         length_s (sequence app') = length_s (sequence app) \<and>
         box_params (sequence app') = box_params (sequence app)"
  using assms
  by (auto simp: update_app_def presenting_def ebind_Inr dest!: show_seq_frame)

lemma ticks_presenting:
  assumes "ticks ts app = Inr app'" and "presenting app"
  shows "presenting app' \<and> participant app' = participant app \<and>
         trial_over app' = trial_over app \<and> max_trials app' = max_trials app \<and>
         length_s (sequence app') = length_s (sequence app) \<and>
         box_params (sequence app') = box_params (sequence app)"
  using assms
proof (induction ts arbitrary: app)
  case Nil
  then show ?case by simp
next
  case (Cons t ts)
  then obtain app1 where 1: "update_app t app = Inr app1" and 2: "ticks ts app1 = Inr app'"
    by (auto simp: ebind_Inr)
  from update_app_presenting[OF 1 Cons.prems(2)] Cons.IH[OF 2] show ?case by simp
qed

lemma update_app_feedback:
  assumes "update_app time app = Inr app'" and "state app = Feedback"
  shows "\<exists>out. show_feedback app = Inr (out, app')"
  using assms by (auto simp: update_app_def ebind_Inr)

subsection \<open>Concrete attempts\<close>

lemma demo_generate_boxes:
  assumes "screen_size s = (800, 600)" and "box_params s = demo_params"
  shows "generate_boxes s demo_rng
     = Some (Inr [Box (75, 80) 50, Box (675, 374) 50, Box (324, 223) 50, Box (624, 523) 50])"
  by (simp add: generate_boxes_def assms demo_params_def demo_rng_def
        generate_loop.simps randint_def collision_check_iff Box_def Let_def)

lemma demo_first_failure:
  "handle_user_input (675, 374) MOUSEBUTTONUP demo_input = Inr demo_fail1"
  by (simp add: demo_fail1_def demo_defs demo_boxes_eq click_defs)

lemma rhe_int: "round_half_even (of_int n) = n"
  by (simp add: round_half_even_def)

lemma py_round_2: "py_round 2 2 = 2" "py_round 0 2 = 0"
  using rhe_int[of 200] rhe_int[of 0] by (simp_all add: py_round_def)

lemma demo_first_feedback: "update_app t demo_fail1 = Inr demo_fail1"
  by (simp add: update_app_def show_feedback_def demo_fail1_def demo_defs ebind_def)

lemma demo_proceed:
  "handle_feedback_input demo_rng (KEYDOWN K_SPACE) demo_fail1 = Some (Inr demo_retry_show)"
  by (simp add: handle_feedback_input_def generate_sequence_def generate_def
      demo_fail1_def demo_retry_show_def demo_input_def Application_def Participant_def
      Sequence_def demo_generate_boxes ebind_def)

lemma demo_presentation: "ticks demo_clocks demo_retry_show = Inr demo_retry"
  by (simp add: demo_clocks_def update_app_def show_seq_def set_highlight_def
      demo_retry_show_def demo_retry_def demo_defs demo_boxes_eq draw_def Box_def ebind_def)

lemma demo_second_failure:
  "handle_user_input (675, 374) MOUSEBUTTONUP demo_retry = Inr demo_fail2"
  by (simp add: demo_retry_def demo_fail2_def demo_defs demo_boxes_eq click_defs)

lemma demo_second_feedback: "update_app t demo_fail2 = Inr demo_over"
  by (simp add: update_app_def show_feedback_def update_statistics_def py_round_2
      demo_over_def demo_fail2_def demo_defs ebind_def)

lemma demo_success:
  "handle_user_input (324, 223) MOUSEBUTTONUP demo_input2 = Inr demo_ok"
  by (simp add: demo_input2_def demo_ok_def demo_defs demo_boxes_eq click_defs)

lemma demo_success_feedback: "update_app t demo_ok = Inr demo_ok2"
  by (simp add: update_app_def show_feedback_def demo_ok_def demo_ok2_def demo_defs ebind_def)

lemma demo_success_proceed:
  "handle_feedback_input demo_rng (KEYDOWN K_SPACE) demo_ok2 = Some (Inr demo_next)"
  by (simp add: handle_feedback_input_def generate_sequence_def generate_def
      demo_ok_def demo_ok2_def demo_next_def demo_input_def Application_def Participant_def
      Sequence_def demo_generate_boxes ebind_def)

subsection \<open>The staircase\<close>

text \<open>
  Claim C5. When a trial ends, the achieved span is appended to the span history
  exactly once, although the feedback and with it the statistics update run again
  at every render tick while the state is \<open>Feedback\<close>: after the tick that ends the
  trial, any number of further ticks leaves the state as it is, and the length of the
  history equals the index of the trial. The participant enters the feedback with
  one span in the history for each trial before the current one.
\<close>

theorem history_appended_once:
  assumes "state app = Feedback" and "participant app = Some p"
    and "int (length (corsi_spans p)) = current_trial p - 1"
    and "update_app time app = Inr app1" and "trial_over app1"
  shows "\<exists>p1. participant app1 = Some p1 \<and> current_trial p1 = current_trial p \<and>
              corsi_spans p1 = corsi_spans p @ [corsi_span p1] \<and>
              int (length (corsi_spans p1)) = current_trial p1 \<and>
              (\<forall>ts. ticks ts app1 = Inr app1)"
proof -
  from assms(1,4) obtain out where sf: "show_feedback app = Inr (out, app1)"
    by (auto simp: update_app_def ebind_Inr)
  have st: "state app1 = Feedback" using show_feedback_state[OF sf] assms(1) by simp
  from assms(3) have le: "current_trial p - 1 \<le> int (length (corsi_spans p))" by simp
  from show_feedback_idem[OF sf assms(2) le assms(5)] obtain out1 where
    "show_feedback app1 = Inr (out1, app1)" ..
  with st have "update_app t app1 = Inr app1" for t
    by (simp add: update_app_def ebind_simps)
  then have fixed: "\<forall>ts. ticks ts app1 = Inr app1" by (simp add: ticks_fixed)
  have "\<exists>p1. participant app1 = Some p1 \<and> current_trial p1 = current_trial p \<and>
              corsi_spans p1 = corsi_spans p @ [corsi_span p1]"
  proof (cases "correct_s (sequence app)")
    case True
    from show_feedback_correct[OF sf assms(2) True] obtain len p1 where
      "participant app1 = Some p1" "corsi_span p1 = len" "current_trial p1 = current_trial p"
      "update_statistics (p\<lparr> errors := 0, corsi_span := len \<rparr>) = Inr p1"
      using assms(5) by blast
    with assms(3) update_statistics_fields(1)[of "p\<lparr> errors := 0, corsi_span := len \<rparr>" p1]
    show ?thesis by simp
  next
    case False
    from show_feedback_incorrect[OF sf assms(2) False] obtain p1 where
      "participant app1 = Some p1" "corsi_span p1 = corsi_span p"
      "current_trial p1 = current_trial p" "update_statistics p = Inr p1"
      using assms(5) by blast
    with assms(3) update_statistics_fields(1)[of p p1]
    show ?thesis by simp
  qed
  then obtain p1 where "participant app1 = Some p1" "current_trial p1 = current_trial p"
    "corsi_spans p1 = corsi_spans p @ [corsi_span p1]" by blast
  with assms(3) fixed show ?thesis by simp
qed

theorem history_appended_once_witness:
  "state demo_fail2 = Feedback \<and>
   update_app (\<lambda>k. 8) demo_fail2 = Inr demo_over \<and> trial_over demo_over \<and>
   map_option corsi_spans (participant demo_fail2) = Some [] \<and>
   map_option corsi_spans (participant demo_over) = Some [2] \<and>
   map_option current_trial (participant demo_over) = Some 1 \<and>
   ticks [\<lambda>k. 9, \<lambda>k. 10, \<lambda>k. 11] demo_over = Inr demo_over"
proof -
  have st: "state demo_fail2 = Feedback"
    and p: "participant demo_fail2 = Some ((Participant 5)\<lparr> errors := 2 \<rparr>)"
    and len: "int (length (corsi_spans ((Participant 5)\<lparr> errors := 2 \<rparr>)))
                = current_trial ((Participant 5)\<lparr> errors := 2 \<rparr>) - 1"
    and over: "trial_over demo_over"
    and sp: "map_option corsi_spans (participant demo_over) = Some [2]"
      "map_option current_trial (participant demo_over) = Some 1"
    by (simp_all add: demo_fail2_def demo_over_def demo_defs)
  have sp0: "map_option corsi_spans (participant demo_fail2) = Some []"
    by (simp add: p Participant_def)
  from history_appended_once[OF st p len demo_second_feedback over]
  have "ticks [\<lambda>k. 9, \<lambda>k. 10, \<lambda>k. 11] demo_over = Inr demo_over" by blast
  with st over sp sp0 demo_second_feedback[of "\<lambda>k. 8"] show ?thesis by blast
qed



text \<open>
  With a render tick after each of two consecutive incorrect attempts at the same
  span length, the trial ends, and the span is still the one the participant had
  before the two attempts, not the failed length: an incorrect sequence never assigns
  the span, and an error counter of 2 or more sets \<^verbatim>\<open>trial_over\<close> without touching
  the span.
\<close>

lemma two_failures_end_trial:
  assumes "participant app0 = Some p0" and "state app0 = UserInput"
    and "length_s (sequence app0) = Some (corsi_span p0 + 1)"
    and "handle_user_input m1 ev1 app0 = Inr app1"
    and "state app1 = Feedback" and "\<not> correct_s (sequence app1)"
    and "update_app t1 app1 = Inr app2" and "\<not> trial_over app2"
    and "handle_feedback_input rng (KEYDOWN K_SPACE) app2 = Some (Inr app3)"
    and "ticks ts app3 = Inr app4" and "state app4 = UserInput"
    and "handle_user_input m2 ev2 app4 = Inr app5"
    and "state app5 = Feedback" and "\<not> correct_s (sequence app5)"
    and "update_app t2 app5 = Inr app6"
  shows "trial_over app6 \<and>
         (\<exists>p5 p6. participant app5 = Some p5 \<and> 2 \<le> errors p5 \<and>
                   participant app6 = Some p6 \<and> corsi_span p6 = corsi_span p0) \<and>
         length_s (sequence app5) = length_s (sequence app0) \<and>
         (\<forall>app out app' p.
            show_feedback app = Inr (out, app') \<and> participant app = Some p \<and>
            \<not> correct_s (sequence app) \<longrightarrow>
              (\<exists>p'. participant app' = Some p' \<and> corsi_span p' = corsi_span p) \<and>
              (2 \<le> errors p \<longrightarrow> trial_over app'))"
proof -
  from handle_user_input_frame[OF assms(4)] assms(1,3) obtain p1 where
    p1: "participant app1 = Some p1" and s1: "corsi_span p1 = corsi_span p0"
    and l1: "length_s (sequence app1) = Some (corsi_span p0 + 1)"
    by (auto simp: click_frame_def)
  from failed_attempt_counts[OF assms(4) assms(1) _ assms(5,6)] assms(2) p1
  have e1: "0 < errors p1" by auto
  from update_app_feedback[OF assms(7,5)] obtain out1 where
    sf1: "show_feedback app1 = Inr (out1, app2)" ..
  from show_feedback_incorrect[OF sf1 p1 assms(6)] assms(8)
  have one: "errors p1 = 1" and same: "app2 = app1" by auto
  from assms(8,9) same have "generate_sequence rng app1 = Some (Inr app3)"
    by (simp add: handle_feedback_input_retry)
  from generate_sequence_Inr[OF this p1] s1
  have p3: "participant app3 = Some (p1\<lparr> clicks := 0 \<rparr>)" and st3: "state app3 = ShowSequence"
    and l3: "length_s (sequence app3) = Some (corsi_span p0 + 1)"
    by simp_all
  from st3 have "presenting app3" by (simp add: presenting_def)
  from ticks_presenting[OF assms(10) this] p3 l3
  have p4: "participant app4 = Some (p1\<lparr> clicks := 0 \<rparr>)"
    and l4: "length_s (sequence app4) = Some (corsi_span p0 + 1)"
    by simp_all
  from handle_user_input_frame[OF assms(12)] p4 l4 s1 obtain p5 where
    p5: "participant app5 = Some p5" and s5: "corsi_span p5 = corsi_span p0"
    and l5: "length_s (sequence app5) = Some (corsi_span p0 + 1)"
    by (auto simp: click_frame_def)
  from failed_attempt_counts[OF assms(12) p4 _ assms(13,14)] assms(11) p5 one
  have e5: "1 < errors p5" by auto
  from update_app_feedback[OF assms(15,13)] obtain out2 where
    sf2: "show_feedback app5 = Inr (out2, app6)" ..
  from show_feedback_incorrect[OF sf2 p5 assms(14)] e5 s5
  have over: "trial_over app6" and p6: "\<exists>p6. participant app6 = Some p6 \<and> corsi_span p6 = corsi_span p0"
    by auto
  have gen: "\<forall>app out app' p.
            show_feedback app = Inr (out, app') \<and> participant app = Some p \<and>
            \<not> correct_s (sequence app) \<longrightarrow>
              (\<exists>p'. participant app' = Some p' \<and> corsi_span p' = corsi_span p) \<and>
              (2 \<le> errors p \<longrightarrow> trial_over app')"
  proof (intro allI impI)
    fix app out app' p
    assume h: "show_feedback app = Inr (out, app') \<and> participant app = Some p \<and>
            \<not> correct_s (sequence app)"
    then have "show_feedback app = Inr (out, app')" "participant app = Some p"
      "\<not> correct_s (sequence app)" by simp_all
    from show_feedback_incorrect[OF this]
    show "(\<exists>p'. participant app' = Some p' \<and> corsi_span p' = corsi_span p) \<and>
              (2 \<le> errors p \<longrightarrow> trial_over app')" by auto
  qed
  from e5 have "2 \<le> errors p5" by simp
  with over p5 p6 l5 assms(3) gen show ?thesis by (simp only: simp_thms) blast
qed

lemma two_failures_end_trial_run:
  "handle_user_input (675, 374) MOUSEBUTTONUP demo_input = Inr demo_fail1 \<and>
   update_app (\<lambda>k. 2) demo_fail1 = Inr demo_fail1 \<and> \<not> trial_over demo_fail1 \<and>
   handle_feedback_input demo_rng (KEYDOWN K_SPACE) demo_fail1 = Some (Inr demo_retry_show) \<and>
   ticks demo_clocks demo_retry_show = Inr demo_retry \<and>
   handle_user_input (675, 374) MOUSEBUTTONUP demo_retry = Inr demo_fail2 \<and>
   update_app (\<lambda>k. 8) demo_fail2 = Inr demo_over \<and>
   trial_over demo_over \<and>
   map_option corsi_span (participant demo_input) = Some 2 \<and>
   map_option corsi_span (participant demo_over) = Some 2 \<and>
   length_s (sequence demo_fail2) = Some 3"
proof -
  have p0: "participant demo_input = Some (Participant 5)"
    and s0: "state demo_input = UserInput"
    and l0: "length_s (sequence demo_input) = Some (corsi_span (Participant 5) + 1)"
    and s1: "state demo_fail1 = Feedback" and c1: "\<not> correct_s (sequence demo_fail1)"
    and no: "\<not> trial_over demo_fail1"
    and s4: "state demo_retry = UserInput"
    and s5: "state demo_fail2 = Feedback" and c5: "\<not> correct_s (sequence demo_fail2)"
    by (simp_all add: demo_fail1_def demo_retry_def demo_fail2_def demo_defs)
  have vals: "map_option corsi_span (participant demo_input) = Some 2"
    "map_option corsi_span (participant demo_over) = Some 2"
    "length_s (sequence demo_fail2) = Some 3"
    by (simp_all add: demo_over_def demo_fail2_def demo_defs)
  from two_failures_end_trial[OF p0 s0 l0 demo_first_failure s1 c1 demo_first_feedback no
      demo_proceed demo_presentation s4 demo_second_failure s5 c5 demo_second_feedback]
  have "trial_over demo_over" by blast
  with demo_first_failure demo_first_feedback[of "\<lambda>k. 2"] no demo_proceed demo_presentation
    demo_second_failure demo_second_feedback[of "\<lambda>k. 8"] vals
  show ?thesis by blast
qed

subsection \<open>The states of a session\<close>

text \<open>
  The hypotheses of the staircase theorems on the history and on the length of the
  sequence are facts of every state of a session.
\<close>

lemma session_inv_start: "session_inv (Application scr bp delay maxp maxt)"
  by (simp add: session_inv_def Application_def)

lemma session_inv_id_input:
  assumes "session_inv app" and "state app = Participant_ID"
  shows "session_inv (fst (handle_id_input py upd ev app))"
  using assms
  by (auto simp: session_inv_def handle_id_input_def Let_def Participant_def presenting_def
      split: option.splits)

lemma session_inv_generate_sequence:
  assumes "session_inv app" and "generate_sequence rng app = Some (Inr app')"
    and "state app \<noteq> Participant_ID"
  shows "session_inv app'"
proof -
  from assms(1,3) obtain p where p: "participant app = Some p"
    by (auto simp: session_inv_def split: option.splits)
  from generate_sequence_Inr[OF assms(2) p] assms(1) p show ?thesis
    by (auto simp: session_inv_def presenting_def)
qed

lemma session_inv_trial_start:
  "session_inv (app\<lparr> trial_start := t \<rparr>) = session_inv app"
  by (simp add: session_inv_def presenting_def split: option.splits)

lemma session_inv_instructions:
  assumes "session_inv app" and "handle_instructions_input rng now ev app = Some (Inr app')"
    and "state app = Instructions"
  shows "session_inv app'"
proof (cases "ev = KEYDOWN K_SPACE")
  case True
  with assms(2) have "generate_sequence rng (app\<lparr> trial_start := now \<rparr>) = Some (Inr app')"
    by (auto simp: handle_instructions_input_def split: option.splits)
  from session_inv_generate_sequence[OF _ this] assms(1,3) show ?thesis
    by (simp add: session_inv_trial_start)
next
  case False
  with assms show ?thesis by (simp add: handle_instructions_input_def)
qed

lemma click_box_state:
  assumes "click_box mouse k app = Inr app'"
  shows "state app' = state app \<or> state app' = Feedback"
  using assms
  by (auto simp: click_box_def Let_def split: option.splits if_splits)

lemma click_loop_state:
  assumes "click_loop mouse ks app = Inr app'"
  shows "state app' = state app \<or> state app' = Feedback"
  using assms
proof (induction ks arbitrary: app)
  case Nil
  then show ?case by simp
next
  case (Cons k ks)
  then obtain app1 where 1: "click_box mouse k app = Inr app1"
    and 2: "click_loop mouse ks app1 = Inr app'"
    by (auto simp: ebind_Inr)
  from click_box_state[OF 1] Cons.IH[OF 2] show ?case by auto
qed

lemma session_inv_user_input:
  assumes "session_inv app" and "handle_user_input mouse ev app = Inr app'"
    and "state app = UserInput"
  shows "session_inv app'"
proof -
  have st: "state app' = UserInput \<or> state app' = Feedback"
  proof (cases "ev = MOUSEBUTTONUP")
    case True
    with assms(2) have "click_loop mouse [0 ..< length (boxes (sequence app))] app = Inr app'"
      by (simp add: handle_user_input_def)
    from click_loop_state[OF this] assms(3) show ?thesis by simp
  next
    case False
    with assms(2,3) show ?thesis by (simp add: handle_user_input_def)
  qed
  from handle_user_input_frame[OF assms(2)] assms(1,3) st show ?thesis
    by (auto simp: session_inv_def click_frame_def presenting_def split: option.splits)
qed


lemma session_inv_feedback_input:
  assumes "session_inv app" and "handle_feedback_input rng ev app = Some (Inr app')"
    and "state app = Feedback"
  shows "session_inv app'"
proof (cases "ev = KEYDOWN K_SPACE")
  case False
  with assms show ?thesis by (simp add: handle_feedback_input_def)
next
  case True
  from assms(1,3) obtain p where p: "participant app = Some p"
    by (auto simp: session_inv_def split: option.splits)
  show ?thesis
  proof (cases "trial_over app \<and> current_trial p < max_trials app")
    case adv: True
    let ?app1 = "app\<lparr> participant := Some (p\<lparr> current_trial := current_trial p + 1,
                                                  corsi_span := 2, errors := 0 \<rparr>),
                       trial_over := False \<rparr>"
    have inv1: "session_inv ?app1"
      using assms(1,3) p adv by (simp add: session_inv_def presenting_def)
    from assms(2) True p adv have "generate_sequence rng ?app1 = Some (Inr app')"
      by (simp add: handle_feedback_input_def)
    from session_inv_generate_sequence[OF inv1 this] assms(3) show ?thesis by simp
  next
    case noadv: False
    show ?thesis
    proof (cases "trial_over app")
      case over: True
      with noadv assms(2) True p have "app' = app \<or> generate_sequence rng app = Some (Inr app')"
        by (auto simp: handle_feedback_input_def split: if_splits)
      with assms(1,3) session_inv_generate_sequence show ?thesis by auto
    next
      case False
      with assms(2) True have "generate_sequence rng app = Some (Inr app')"
        by (simp add: handle_feedback_input_retry)
      from session_inv_generate_sequence[OF assms(1) this] assms(3) show ?thesis by simp
    qed
  qed
qed

lemma session_inv_event:
  assumes "session_inv app" and "handle_event py upd rng now mouse ev app = Some (Inr app')"
  shows "session_inv app'"
proof (cases "state app")
  case Participant_ID
  with assms session_inv_id_input[of app py upd ev] show ?thesis
    by (auto simp: handle_event_def split: if_splits)
next
  case Instructions
  with assms session_inv_instructions show ?thesis
    by (auto simp: handle_event_def split: if_splits)
next
  case ShowSequence
  with assms show ?thesis by (auto simp: handle_event_def split: if_splits)
next
  case UserInput
  with assms session_inv_user_input show ?thesis
    by (auto simp: handle_event_def split: if_splits)
next
  case Feedback
  with assms session_inv_feedback_input show ?thesis
    by (auto simp: handle_event_def split: if_splits)
qed

lemma session_inv_tick:
  assumes "session_inv app" and "update_app time app = Inr app'"
  shows "session_inv app'"
proof (cases "state app = Feedback")
  case True
  from update_app_feedback[OF assms(2) True] obtain out where
    sf: "show_feedback app = Inr (out, app')" ..
  from sf obtain p where p: "participant app = Some p"
    by (auto simp: show_feedback_def split: option.splits)
  have st: "state app' = Feedback" using show_feedback_state[OF sf] True by simp
  show ?thesis
  proof (cases "correct_s (sequence app)")
    case c: True
    from show_feedback_correct[OF sf p c] obtain len p' where
      h: "participant app' = Some p'" "current_trial p' = current_trial p"
         "\<not> trial_over app' \<longrightarrow> p' = p\<lparr> errors := 0, corsi_span := len \<rparr>"
         "trial_over app' \<longrightarrow> update_statistics (p\<lparr> errors := 0, corsi_span := len \<rparr>) = Inr p'"
         "trial_over app' = (trial_over app \<or> len = int (n_boxes (box_params (sequence app))))"
      by blast
    show ?thesis
    proof (cases "trial_over app'")
      case True
      with h update_statistics_fields(1)[of "p\<lparr> errors := 0, corsi_span := len \<rparr>" p']
        assms(1) p st
      show ?thesis by (auto simp: session_inv_def presenting_def split: if_splits)
    next
      case False
      with h assms(1) p st show ?thesis by (auto simp: session_inv_def presenting_def)
    qed
  next
    case c: False
    from show_feedback_incorrect[OF sf p c] obtain p' where
      h: "participant app' = Some p'" "current_trial p' = current_trial p"
         "\<not> trial_over app' \<longrightarrow> app' = app"
         "trial_over app' \<longrightarrow> update_statistics p = Inr p'"
         "trial_over app' = (trial_over app \<or> errors p \<noteq> 1)"
      by blast
    show ?thesis
    proof (cases "trial_over app'")
      case True
      with h update_statistics_fields(1)[of p p'] assms(1) p st
      show ?thesis by (auto simp: session_inv_def presenting_def split: if_splits)
    next
      case False
      with h assms(1) show ?thesis by auto
    qed
  qed
next
  case False
  show ?thesis
  proof (cases "presenting app")
    case True
    from update_app_presenting[OF assms(2) True] assms(1) True show ?thesis
      by (auto simp: session_inv_def presenting_def split: option.splits)
  next
    case np: False
    with False assms(2) have "app' = app"
      by (cases "state app") (auto simp: update_app_def presenting_def)
    with assms(1) show ?thesis by simp
  qed
qed

lemma reachable_session_inv: "reachable app \<Longrightarrow> session_inv app"
  by (induction rule: reachable.induct)
    (auto intro: session_inv_start session_inv_event session_inv_tick)

subsection \<open>Events queued behind the last click\<close>

text \<open>
  \<^verbatim>\<open>handle_events\<close> handles every event of a batch on the state that the event
  before it left, and only then the render tick runs.
\<close>

lemma handle_event_UserInput:
  assumes "state app = UserInput" and "ev = MOUSEBUTTONUP \<or> ev = KEYDOWN K_SPACE"
  shows "handle_event py upd rng now mouse ev app = Some (handle_user_input mouse ev app)"
  using assms by (auto simp: handle_event_def)

lemma handle_event_Feedback:
  assumes "state app = Feedback" and "ev = MOUSEBUTTONUP \<or> ev = KEYDOWN K_SPACE"
  shows "handle_event py upd rng now mouse ev app = handle_feedback_input rng ev app"
  using assms by (auto simp: handle_event_def)

lemma demo_states:
  "state demo_input = UserInput" "state demo_input1 = UserInput" "state demo_input2 = UserInput"
  "state demo_retry = UserInput" "state demo_fail1 = Feedback" "state demo_fail2 = Feedback"
  "state demo_ok = Feedback" "state demo_ok2 = Feedback"
  "state demo_full_start = UserInput" "state demo_full1 = UserInput"
  "state demo_full2 = UserInput" "state demo_full_input = UserInput"
  "state demo_full_done = Feedback"
  by (simp_all add: demo_input1_def demo_input2_def demo_retry_def demo_fail1_def demo_fail2_def
      demo_ok_def demo_ok2_def demo_full_start_def demo_full1_def demo_full2_def
      demo_full_input_def demo_full_done_def demo_next_def demo_defs)

lemma demo_batch_proceed:
  "handle_feedback_input demo_rng (KEYDOWN K_SPACE) demo_fail2 = Some (Inr demo_third)"
  by (simp add: handle_feedback_input_def generate_sequence_def generate_def
      demo_fail2_def demo_third_def demo_input_def Application_def Participant_def
      Sequence_def demo_generate_boxes ebind_def)

lemmas demo_full_defs = demo_full_start_def demo_full1_def demo_full2_def demo_full_input_def
  demo_full_done_def demo_full_again_def demo_next_def demo_ok2_def demo_ok_def

lemma demo_full_presentation: "ticks demo_clocks4 demo_next = Inr demo_full_start"
  by (simp add: demo_clocks4_def clock_at_def update_app_def show_seq_def set_highlight_def
      demo_full_defs demo_defs demo_boxes_eq draw_def Box_def ebind_def)

lemma demo_full_clicks:
  "handle_user_input (75, 80) MOUSEBUTTONUP demo_full_start = Inr demo_full1"
  "handle_user_input (675, 374) MOUSEBUTTONUP demo_full1 = Inr demo_full2"
  "handle_user_input (324, 223) MOUSEBUTTONUP demo_full2 = Inr demo_full_input"
  "handle_user_input (624, 523) MOUSEBUTTONUP demo_full_input = Inr demo_full_done"
  by (simp_all add: demo_full_defs demo_defs demo_boxes_eq click_defs)

lemma demo_full_batch_proceed:
  "handle_feedback_input demo_rng (KEYDOWN K_SPACE) demo_full_done = Some (Inr demo_full_again)"
  by (simp add: handle_feedback_input_def generate_sequence_def generate_def
      demo_full_defs demo_input_def Application_def Participant_def
      Sequence_def demo_generate_boxes ebind_def)

text \<open>
  Claim C1. Two consecutive incorrect attempts at the same span length are to end
  the trial with the span kept (the program's own comment: two errors for the same
  sequence length terminate the trial). The program sets \<^verbatim>\<open>trial_over\<close> only in the
  feedback of a render tick, and every event of a batch is handled before the tick.
  Where the space key is queued behind the second failing click, the trial is not
  over: a third sequence of the same length is generated, with the error counter
  at 2.
\<close>

theorem second_failure_with_queued_space_starts_third_attempt:
  "handle_event demo_python demo_widget demo_rng 2 (675, 374) MOUSEBUTTONUP demo_input
     = Some (Inr demo_fail1) \<and>
   update_app (clock_at 2) demo_fail1 = Inr demo_fail1 \<and>
   handle_event demo_python demo_widget demo_rng 2 (675, 374) (KEYDOWN K_SPACE) demo_fail1
     = Some (Inr demo_retry_show) \<and>
   ticks demo_clocks demo_retry_show = Inr demo_retry \<and>
   length_s (sequence demo_retry) = length_s (sequence demo_input) \<and>
   handle_event demo_python demo_widget demo_rng 8 (675, 374) MOUSEBUTTONUP demo_retry
     = Some (Inr demo_fail2) \<and>
   \<not> correct_s (sequence demo_fail1) \<and> \<not> correct_s (sequence demo_fail2) \<and>
   participant demo_fail2 = Some ((Participant 5)\<lparr> errors := 2 \<rparr>) \<and>
   handle_event demo_python demo_widget demo_rng 8 (675, 374) (KEYDOWN K_SPACE) demo_fail2
     = Some (Inr demo_third) \<and>
   state demo_third = ShowSequence \<and> \<not> trial_over demo_third \<and>
   participant demo_third = Some ((Participant 5)\<lparr> errors := 2 \<rparr>) \<and>
   length_s (sequence demo_third) = length_s (sequence demo_input)"
proof -
  have ev: "handle_event demo_python demo_widget demo_rng 2 (675, 374) MOUSEBUTTONUP demo_input
              = Some (Inr demo_fail1)"
    "handle_event demo_python demo_widget demo_rng 2 (675, 374) (KEYDOWN K_SPACE) demo_fail1
              = Some (Inr demo_retry_show)"
    "handle_event demo_python demo_widget demo_rng 8 (675, 374) MOUSEBUTTONUP demo_retry
              = Some (Inr demo_fail2)"
    "handle_event demo_python demo_widget demo_rng 8 (675, 374) (KEYDOWN K_SPACE) demo_fail2
              = Some (Inr demo_third)"
    by (simp_all add: handle_event_UserInput handle_event_Feedback demo_states
        demo_first_failure demo_proceed demo_second_failure demo_batch_proceed)
  have vals: "length_s (sequence demo_retry) = length_s (sequence demo_input)"
    "\<not> correct_s (sequence demo_fail1)" "\<not> correct_s (sequence demo_fail2)"
    "participant demo_fail2 = Some ((Participant 5)\<lparr> errors := 2 \<rparr>)"
    "state demo_third = ShowSequence" "\<not> trial_over demo_third"
    "participant demo_third = Some ((Participant 5)\<lparr> errors := 2 \<rparr>)"
    "length_s (sequence demo_third) = length_s (sequence demo_input)"
    by (simp_all add: demo_retry_def demo_fail1_def demo_fail2_def demo_third_def demo_defs)
  from ev vals demo_first_feedback[of "clock_at 2"] demo_presentation show ?thesis by blast
qed

text \<open>
  Claim C3. A trial is to end in the won outcome exactly when a sequence whose
  length equals \<^verbatim>\<open>n_boxes\<close> is reproduced correctly. The program sets the span and
  \<^verbatim>\<open>trial_over\<close> only in the feedback of a render tick, and every event of a batch
  is handled before the tick. Where the space key is queued behind the last correct
  click of the sequence of all boxes, the trial is not over and not won: the span
  stays at 3, and a sequence of length 4 is generated again.
\<close>

theorem full_length_success_with_queued_space_is_not_won:
  "handle_event demo_python demo_widget demo_rng 15 (624, 523) MOUSEBUTTONUP demo_full_input
     = Some (Inr demo_full_done) \<and>
   correct_s (sequence demo_full_done) \<and>
   length_s (sequence demo_full_done)
     = Some (int (n_boxes (box_params (sequence demo_full_done)))) \<and>
   handle_event demo_python demo_widget demo_rng 15 (624, 523) (KEYDOWN K_SPACE) demo_full_done
     = Some (Inr demo_full_again) \<and>
   state demo_full_again = ShowSequence \<and> \<not> trial_over demo_full_again \<and>
   participant demo_full_again = Some ((Participant 5)\<lparr> corsi_span := 3 \<rparr>) \<and>
   length_s (sequence demo_full_again) = Some 4"
proof -
  have ev: "handle_event demo_python demo_widget demo_rng 15 (624, 523) MOUSEBUTTONUP
              demo_full_input = Some (Inr demo_full_done)"
    "handle_event demo_python demo_widget demo_rng 15 (624, 523) (KEYDOWN K_SPACE)
              demo_full_done = Some (Inr demo_full_again)"
    by (simp_all add: handle_event_UserInput handle_event_Feedback demo_states
        demo_full_clicks demo_full_batch_proceed)
  have vals: "correct_s (sequence demo_full_done)"
    "length_s (sequence demo_full_done)
       = Some (int (n_boxes (box_params (sequence demo_full_done))))"
    "state demo_full_again = ShowSequence" "\<not> trial_over demo_full_again"
    "participant demo_full_again = Some ((Participant 5)\<lparr> corsi_span := 3 \<rparr>)"
    "length_s (sequence demo_full_again) = Some 4"
    by (simp_all add: demo_full_defs demo_defs)
  from ev vals show ?thesis by blast
qed

text \<open>The states of these runs are states of a session.\<close>

lemma ticks_reachable:
  assumes "reachable app" and "ticks ts app = Inr app'"
  shows "reachable app'"
  using assms
proof (induction ts arbitrary: app)
  case Nil
  then show ?case by simp
next
  case (Cons t ts)
  then obtain a where "update_app t app = Inr a" "ticks ts a = Inr app'"
    by (auto simp: ebind_Inr)
  with Cons.IH Cons.prems(1) reachable.tick show ?case by blast
qed

lemma demo_input_reachable: "reachable demo_input"
proof -
  let ?a0 = "Application (800, 600) demo_params 1 20 3"
  let ?a1 = "?a0\<lparr> text_input := [53] \<rparr>"
  let ?a2 = "?a1\<lparr> participant := Some (Participant 5), state := Instructions \<rparr>"
  have r0: "reachable ?a0" by (rule reachable.start)
  have "handle_event demo_python demo_widget demo_rng 0 (0, 0) (KEYDOWN (K_other 53)) ?a0
          = Some (Inr ?a1)"
    by (simp add: handle_event_def handle_id_input_def demo_widget_def Application_def)
  from reachable.event[OF r0 this] have r1: "reachable ?a1" .
  have "handle_event demo_python demo_widget demo_rng 0 (0, 0) (KEYDOWN K_RETURN) ?a1
          = Some (Inr ?a2)"
    using py_int_examples(1)
    by (simp add: handle_event_def handle_id_input_def demo_widget_def Application_def ascii_def)
  from reachable.event[OF r1 this] have r2: "reachable ?a2" .
  have "handle_event demo_python demo_widget demo_rng 1 (0, 0) (KEYDOWN K_SPACE) ?a2
          = Some (Inr demo_show0)"
    by (simp add: handle_event_def handle_instructions_input_def generate_sequence_def
        generate_def demo_show0_def demo_input_def Application_def Participant_def
        Sequence_def demo_generate_boxes ebind_def)
  from reachable.event[OF r2 this] have r3: "reachable demo_show0" .
  have t: "ticks demo_clocks demo_show0 = Inr demo_input"
    by (simp add: demo_clocks_def update_app_def show_seq_def set_highlight_def
      demo_show0_def demo_defs demo_boxes_eq draw_def Box_def ebind_def)
  from ticks_reachable[OF r3 t] show ?thesis .
qed

lemma click_reachable:
  assumes "reachable app" and "state app = UserInput"
    and "handle_user_input mouse MOUSEBUTTONUP app = Inr app'"
  shows "reachable app'"
proof -
  have "handle_event demo_python demo_widget demo_rng 0 mouse MOUSEBUTTONUP app = Some (Inr app')"
    using assms(2,3) by (simp add: handle_event_UserInput)
  from reachable.event[OF assms(1) this] show ?thesis .
qed

lemma space_reachable:
  assumes "reachable app" and "state app = Feedback"
    and "handle_feedback_input rng (KEYDOWN K_SPACE) app = Some (Inr app')"
  shows "reachable app'"
proof -
  have "handle_event demo_python demo_widget rng 0 (0, 0) (KEYDOWN K_SPACE) app = Some (Inr app')"
    using assms(2,3) by (simp add: handle_event_Feedback)
  from reachable.event[OF assms(1) this] show ?thesis .
qed

lemma demo_third_reachable: "reachable demo_fail2 \<and> reachable demo_third"
proof -
  note r0 = demo_input_reachable
  from click_reachable[OF r0 demo_states(1) demo_first_failure] have r1: "reachable demo_fail1" .
  from space_reachable[OF r1 demo_states(5) demo_proceed] have r2: "reachable demo_retry_show" .
  from ticks_reachable[OF r2 demo_presentation] have r3: "reachable demo_retry" .
  from click_reachable[OF r3 demo_states(4) demo_second_failure] have r4: "reachable demo_fail2" .
  from space_reachable[OF r4 demo_states(6) demo_batch_proceed] r4 show ?thesis by simp
qed

lemma demo_full_again_reachable: "reachable demo_full_done \<and> reachable demo_full_again"
proof -
  note r0 = demo_input_reachable
  from click_reachable[OF r0 demo_states(1) demo_click_first] have r1: "reachable demo_input1" .
  from click_reachable[OF r1 demo_states(2) demo_click_second] have r2: "reachable demo_input2" .
  from click_reachable[OF r2 demo_states(3) demo_success] have r3: "reachable demo_ok" .
  from reachable.tick[OF r3 demo_success_feedback] have r4: "reachable demo_ok2" .
  from space_reachable[OF r4 demo_states(8) demo_success_proceed] have r5: "reachable demo_next" .
  from ticks_reachable[OF r5 demo_full_presentation] have r6: "reachable demo_full_start" .
  from click_reachable[OF r6 demo_states(9) demo_full_clicks(1)] have r7: "reachable demo_full1" .
  from click_reachable[OF r7 demo_states(10) demo_full_clicks(2)] have r8: "reachable demo_full2" .
  from click_reachable[OF r8 demo_states(11) demo_full_clicks(3)]
  have r9: "reachable demo_full_input" .
  from click_reachable[OF r9 demo_states(12) demo_full_clicks(4)]
  have r10: "reachable demo_full_done" .
  from space_reachable[OF r10 demo_states(13) demo_full_batch_proceed] r10 show ?thesis by simp
qed

end
